theory Spec2Isabelle
  imports Main "HOL-Library.Word"
begin

section \<open>Pod-sandbox teardown (pkg/server/sandbox\_stop.go)\<close>

text \<open>
  A shallow embedding of the five functions of \<^verbatim>\<open>pkg/server/sandbox_stop.go\<close>:
  \<^verbatim>\<open>StopPodSandbox\<close>, \<^verbatim>\<open>stopSandboxContainer\<close>, \<^verbatim>\<open>waitSandboxStop\<close>,
  \<^verbatim>\<open>teardownPod\<close> and \<^verbatim>\<open>cleanupUnknownSandbox\<close>.

  The functions are sequential Go code that talks to collaborators which are not part of
  the file: the sandbox and container stores, containerd tasks, the exit monitor, the CNI
  plugin, the network-namespace object. Every collaborator is a field of the record
  \<open>criService\<close> below, a function over an abstract world \<open>'w\<close> (everything outside the
  file that the calls can read or change). The embedding threads the world through the
  calls in the order of the source and records each call, with its arguments and its
  result, in a trace, so that "is called", "is called before" and "is called once" are
  properties of the trace.
\<close>

subsection \<open>Errors (github.com/pkg/errors, containerd errdefs)\<close>

text \<open>\<^verbatim>\<open>sandboxstore.State\<close>.\<close>

datatype State = StateReady | StateNotReady | StateUnknown

text \<open>The arguments of a format string are kept beside it, unformatted.\<close>

datatype Arg = AStr string | AState State

text \<open>
  \<open>ErrNotFound\<close> is \<^verbatim>\<open>errdefs.ErrNotFound\<close>; \<open>New m\<close> is \<^verbatim>\<open>errors.New(m)\<close> and stands for
  any other error value a collaborator returns; \<open>Errorf\<close>, \<open>Wrap\<close> and \<open>Wrapf\<close> are the
  constructors of the same names.
\<close>

datatype error =
    ErrNotFound
  | New string
  | Errorf string "Arg list"
  | Wrap error string
  | Wrapf error string "Arg list"

text \<open>\<^verbatim>\<open>errors.Cause\<close>: the innermost error under the wrappers.\<close>

fun Cause :: "error \<Rightarrow> error" where
  "Cause (Wrap e m) = Cause e"
| "Cause (Wrapf e f as) = Cause e"
| "Cause e = e"

text \<open>\<^verbatim>\<open>errdefs.IsNotFound(err)\<close> is \<^verbatim>\<open>errors.Cause(err) == ErrNotFound\<close>.\<close>

definition IsNotFound :: "error \<Rightarrow> bool" where
  "IsNotFound err = (Cause err = ErrNotFound)"

subsection \<open>Data\<close>

text \<open>Handles of objects that live outside the file are addresses.\<close>

datatype NetNSRef = NetNSRef nat
datatype ContainerHandle = ContainerHandle nat
datatype Task = Task nat
datatype Chan = Chan nat
datatype Context = Background | NamespacedContext | Ctx nat

type_synonym Signal = nat

definition SIGKILL :: Signal where
  "SIGKILL = 9"

text \<open>
  \<^verbatim>\<open>sandboxstore.Sandbox\<close>, the fields the file reads. \<open>NetNS\<close> is the pointer
  \<^verbatim>\<open>*NetNS\<close>: \<open>None\<close> is nil. The lifecycle status and the stopped channel are
  shared mutable objects and are read through the world (\<open>Status_Get\<close>, \<open>Stopped\<close>).
\<close>

record 'cfg Sandbox =
  ID :: string
  Config :: 'cfg
  Container :: ContainerHandle
  NetNS :: "NetNSRef option"
  NetNSPath :: string

text \<open>
  \<^verbatim>\<open>containerstore.Container\<close>: its \<^verbatim>\<open>ID\<close> (here \<open>cntr_ID\<close>, since \<open>ID\<close> is the
  sandbox's field) and its \<^verbatim>\<open>SandboxID\<close>.
\<close>

record Container =
  cntr_ID :: string
  SandboxID :: string

text \<open>\<^verbatim>\<open>eventtypes.TaskExit\<close>; its field \<^verbatim>\<open>ID\<close> is \<open>exit_ID\<close> here.\<close>

record TaskExit =
  ContainerID :: string
  exit_ID :: string
  Pid :: "32 word"
  ExitStatus :: "32 word"
  ExitedAt :: nat

record StopPodSandboxRequest =
  PodSandboxId :: string

datatype StopPodSandboxResponse = StopPodSandboxResponse

text \<open>The options of the CNI plugin's \<^verbatim>\<open>Remove\<close>.\<close>

datatype 'cpm NamespaceOpts =
    WithLabels "(string \<times> string) list"
  | WithCapabilityPortMap "'cpm list"

subsection \<open>The trace\<close>

text \<open>The three cases of the \<^verbatim>\<open>select\<close> in \<^verbatim>\<open>waitSandboxStop\<close>, in source order.\<close>

datatype SelectCase = CaseCtxDone | CaseTimer | CaseStopped

text \<open>
  One event per call to a collaborator: its arguments, then its result. \<open>EvTeardownPod\<close>
  records the call of \<^verbatim>\<open>teardownPod\<close> itself, with its sandbox ID and its path, since
  that function returns without calling any collaborator when no plugin is configured.
\<close>

datatype Event =
    EvStopContainer string int "error option"
  | EvUnmountSandboxFiles string "error option"
  | EvTask ContainerHandle "error + Task"
  | EvWithCancel Context Context
  | EvTaskWait Task Context "error + Chan"
  | EvStartExitMonitor Context string "32 word" Chan Chan
  | EvTaskKill Task Signal "error option"
  | EvCancel Context
  | EvRecv Chan
  | EvSelect SelectCase nat
  | EvHandleSandboxExit TaskExit string "error option"
  | EvNetNSClosed NetNSRef "error + bool"
  | EvTeardownPod string string
  | EvNetPluginRemove string string "error option"
  | EvNetNSRemove NetNSRef "error option"
  | EvInfof string "Arg list"

record 'w Exec =
  world :: 'w
  trace :: "Event list"

text \<open>A call that may change the world: run it, record it with its result.\<close>

definition call :: "('w \<Rightarrow> 'a \<times> 'w) \<Rightarrow> ('a \<Rightarrow> Event) \<Rightarrow> 'w Exec \<Rightarrow> 'a \<times> 'w Exec" where
  "call f ev s =
     (case f (world s) of
        (a, w') \<Rightarrow> (a, \<lparr>world = w', trace = trace s @ [ev a]\<rparr>))"

text \<open>A call without a result.\<close>

definition call0 :: "('w \<Rightarrow> 'w) \<Rightarrow> Event \<Rightarrow> 'w Exec \<Rightarrow> 'w Exec" where
  "call0 f ev s = \<lparr>world = f (world s), trace = trace s @ [ev]\<rparr>"

subsection \<open>The service and its collaborators\<close>

text \<open>
  \<^verbatim>\<open>criService\<close> and everything the file calls that is defined elsewhere. \<open>netPlugin\<close>
  is the pointer \<^verbatim>\<open>c.netPlugin\<close> (\<open>None\<close> is nil), given by its \<^verbatim>\<open>Remove\<close> method.

  The three channels of the \<^verbatim>\<open>select\<close> in \<^verbatim>\<open>waitSandboxStop\<close> are given by the time,
  counted from the moment the \<^verbatim>\<open>select\<close> starts, at which they become ready:
  \<open>ctx_Done\<close> and \<open>Stopped\<close> return \<open>None\<close> for a channel that is never closed and
  \<open>Some 0\<close> for one that is closed already. \<open>fastrand\<close> is the runtime's random number,
  which picks among several ready cases; \<open>elapse d\<close> is the world after waiting \<open>d\<close>.
\<close>

record ('w, 'cfg, 'pm, 'cpm) criService =
  sandboxStore_Get :: "string \<Rightarrow> 'w \<Rightarrow> error + 'cfg Sandbox"
  containerStore_List :: "'w \<Rightarrow> Container list"
  stopContainer :: "Context \<Rightarrow> Container \<Rightarrow> int \<Rightarrow> 'w \<Rightarrow> error option \<times> 'w"
  unmountSandboxFiles :: "string \<Rightarrow> 'cfg \<Rightarrow> 'w \<Rightarrow> error option \<times> 'w"
  Status_Get :: "'cfg Sandbox \<Rightarrow> 'w \<Rightarrow> State"
  NetNS_Closed :: "NetNSRef \<Rightarrow> 'w \<Rightarrow> (error + bool) \<times> 'w"
  NetNS_Remove :: "NetNSRef \<Rightarrow> 'w \<Rightarrow> error option \<times> 'w"
  netPlugin :: "(string \<Rightarrow> string \<Rightarrow> 'cpm NamespaceOpts list \<Rightarrow> 'w \<Rightarrow> error option \<times> 'w) option"
  getPodCNILabels :: "string \<Rightarrow> 'cfg \<Rightarrow> (string \<times> string) list"
  GetPortMappings :: "'cfg \<Rightarrow> 'pm list"
  toCNIPortMappings :: "'pm list \<Rightarrow> 'cpm list"
  Container_Task :: "Context \<Rightarrow> ContainerHandle \<Rightarrow> 'w \<Rightarrow> (error + Task) \<times> 'w"
  WithCancel :: "Context \<Rightarrow> 'w \<Rightarrow> Context \<times> 'w"
  cancel :: "Context \<Rightarrow> 'w \<Rightarrow> 'w"
  Task_Wait :: "Task \<Rightarrow> Context \<Rightarrow> 'w \<Rightarrow> (error + Chan) \<times> 'w"
  Task_Pid :: "Task \<Rightarrow> 32 word"
  Task_Kill :: "Context \<Rightarrow> Task \<Rightarrow> Signal \<Rightarrow> 'w \<Rightarrow> error option \<times> 'w"
  startExitMonitor :: "Context \<Rightarrow> string \<Rightarrow> 32 word \<Rightarrow> Chan \<Rightarrow> 'w \<Rightarrow> Chan \<times> 'w"
  recv :: "Chan \<Rightarrow> 'w \<Rightarrow> 'w"
  killContainerTimeout :: int
  ctx_Done :: "Context \<Rightarrow> 'w \<Rightarrow> nat option"
  ctx_Err :: "Context \<Rightarrow> 'w \<Rightarrow> error"
  Stopped :: "'cfg Sandbox \<Rightarrow> 'w \<Rightarrow> nat option"
  fastrand :: "'w \<Rightarrow> nat"
  elapse :: "nat \<Rightarrow> 'w \<Rightarrow> 'w"
  handleSandboxExit :: "Context \<Rightarrow> TaskExit \<Rightarrow> 'cfg Sandbox \<Rightarrow> 'w \<Rightarrow> error option \<times> 'w"
  unknownExitCode :: "32 word"
  time_Now :: "'w \<Rightarrow> nat"

subsection \<open>The select statement\<close>

text \<open>
  Go's \<^verbatim>\<open>select\<close> without a default case blocks until a case can proceed and then
  runs one case that can; when several can, one of them is chosen by a uniform
  pseudo-random choice. \<open>tc\<close>, \<open>tt\<close> and \<open>ts\<close> are the times at which the context's
  channel, the timer's channel and the stopped channel become ready (the timer always
  fires); \<open>earliest\<close> is the time at which the \<^verbatim>\<open>select\<close> wakes up.
\<close>

definition earliest :: "nat option \<Rightarrow> nat \<Rightarrow> nat option \<Rightarrow> nat" where
  "earliest tc tt ts =
     (let m = (case tc of None \<Rightarrow> tt | Some t \<Rightarrow> min t tt)
      in case ts of None \<Rightarrow> m | Some t \<Rightarrow> min m t)"

definition select3 :: "nat \<Rightarrow> nat option \<Rightarrow> nat \<Rightarrow> nat option \<Rightarrow> SelectCase \<times> nat" where
  "select3 rnd tc tt ts =
     (let d = earliest tc tt ts;
          ready = (if tc = Some d then [CaseCtxDone] else []) @
                  (if tt = d then [CaseTimer] else []) @
                  (if ts = Some d then [CaseStopped] else [])
      in (ready ! (rnd mod length ready), d))"

subsection \<open>waitSandboxStop (lines 148--160)\<close>

text \<open>
  \<^verbatim>\<open>time.NewTimer(timeout)\<close> fires after \<open>timeout\<close>, at once when \<open>timeout\<close> is not
  positive: after \<open>nat timeout\<close>.
\<close>

definition waitSandboxStop ::
  "('w, 'cfg, 'pm, 'cpm) criService \<Rightarrow> Context \<Rightarrow> 'cfg Sandbox \<Rightarrow> int \<Rightarrow> 'w Exec
     \<Rightarrow> error option \<times> 'w Exec" where
  "waitSandboxStop c ctx sandbox timeout s =
     (case select3 (fastrand c (world s)) (ctx_Done c ctx (world s)) (nat timeout)
             (Stopped c sandbox (world s)) of
        (chosen, d) \<Rightarrow>
          let s' = call0 (elapse c d) (EvSelect chosen d) s in
          (case chosen of
             CaseCtxDone \<Rightarrow>
               (Some (Wrapf (ctx_Err c ctx (world s'))
                        ''wait sandbox container %q is cancelled'' [AStr (ID sandbox)]), s')
           | CaseTimer \<Rightarrow>
               (Some (Errorf ''wait sandbox container %q stop timeout'' [AStr (ID sandbox)]), s')
           | CaseStopped \<Rightarrow> (None, s')))"

subsection \<open>teardownPod (lines 162--173)\<close>

definition teardownPod ::
  "('w, 'cfg, 'pm, 'cpm) criService \<Rightarrow> string \<Rightarrow> string \<Rightarrow> 'cfg \<Rightarrow> 'w Exec
     \<Rightarrow> error option \<times> 'w Exec" where
  "teardownPod c id' path config s =
     (let s0 = s\<lparr>trace := trace s @ [EvTeardownPod id' path]\<rparr> in
      case netPlugin c of
        None \<Rightarrow> (Some (New ''cni config not initialized''), s0)
      | Some Remove \<Rightarrow>
          let labels = getPodCNILabels c id' config
          in call (Remove id' path
                     [WithLabels labels,
                      WithCapabilityPortMap (toCNIPortMappings c (GetPortMappings c config))])
                  (EvNetPluginRemove id' path) s0)"

subsection \<open>cleanupUnknownSandbox (lines 175--185)\<close>

definition cleanupUnknownSandbox ::
  "('w, 'cfg, 'pm, 'cpm) criService \<Rightarrow> Context \<Rightarrow> string \<Rightarrow> 'cfg Sandbox \<Rightarrow> 'w Exec
     \<Rightarrow> error option \<times> 'w Exec" where
  "cleanupUnknownSandbox c ctx id' sandbox s =
     (let e = \<lparr>ContainerID = id', exit_ID = id', Pid = 0, ExitStatus = unknownExitCode c,
                ExitedAt = time_Now c (world s)\<rparr>
      in call (handleSandboxExit c ctx e sandbox) (EvHandleSandboxExit e (ID sandbox)) s)"

subsection \<open>stopSandboxContainer (lines 96--146)\<close>

text \<open>
  Lines 140--145, which both the unknown-state path and the other path run: kill the
  task, tolerate not-found, wait for the sandbox to stop.
\<close>

definition killSandboxContainer ::
  "('w, 'cfg, 'pm, 'cpm) criService \<Rightarrow> Context \<Rightarrow> 'cfg Sandbox \<Rightarrow> Task \<Rightarrow> 'w Exec
     \<Rightarrow> error option \<times> 'w Exec" where
  "killSandboxContainer c ctx sandbox task s =
     (case call (Task_Kill c ctx task SIGKILL) (EvTaskKill task SIGKILL) s of
        (Some err, s') \<Rightarrow>
          if \<not> IsNotFound err then (Some (Wrap err ''failed to kill sandbox container''), s')
          else waitSandboxStop c ctx sandbox (killContainerTimeout c) s'
      | (None, s') \<Rightarrow> waitSandboxStop c ctx sandbox (killContainerTimeout c) s')"

text \<open>
  The deferred calls run when the function returns, after the returned value is
  computed, last registered first: \<^verbatim>\<open>exitCancel(); <-stopCh\<close>, then \<^verbatim>\<open>waitCancel()\<close>.
\<close>

definition stopSandboxContainer ::
  "('w, 'cfg, 'pm, 'cpm) criService \<Rightarrow> Context \<Rightarrow> 'cfg Sandbox \<Rightarrow> 'w Exec
     \<Rightarrow> error option \<times> 'w Exec" where
  "stopSandboxContainer c ctx sandbox s =
     (let id' = ID sandbox;
          container = Container sandbox;
          state = Status_Get c sandbox (world s)
      in case call (Container_Task c ctx container) (EvTask container) s of
           (Inl err, s1) \<Rightarrow>
             if \<not> IsNotFound err then (Some (Wrap err ''failed to get sandbox container''), s1)
             else if state = StateUnknown then cleanupUnknownSandbox c ctx id' sandbox s1
             else (None, s1)
         | (Inr task, s1) \<Rightarrow>
             if state = StateUnknown then
               (case call (WithCancel c NamespacedContext) (EvWithCancel NamespacedContext) s1 of
                  (waitCtx, s2) \<Rightarrow>
                    let waitCancel = call0 (cancel c waitCtx) (EvCancel waitCtx) in
                    (case call (Task_Wait c task waitCtx) (EvTaskWait task waitCtx) s2 of
                       (Inl err, s3) \<Rightarrow>
                         if \<not> IsNotFound err
                         then (Some (Wrap err ''failed to wait for task''), waitCancel s3)
                         else (case cleanupUnknownSandbox c ctx id' sandbox s3 of
                                 (r, s4) \<Rightarrow> (r, waitCancel s4))
                     | (Inr exitCh, s3) \<Rightarrow>
                         (case call (WithCancel c Background) (EvWithCancel Background) s3 of
                            (exitCtx, s4) \<Rightarrow>
                              (case call (startExitMonitor c exitCtx id' (Task_Pid c task) exitCh)
                                      (EvStartExitMonitor exitCtx id' (Task_Pid c task) exitCh) s4 of
                                 (stopCh, s5) \<Rightarrow>
                                   (case killSandboxContainer c ctx sandbox task s5 of
                                      (r, s6) \<Rightarrow>
                                        (r, waitCancel
                                              (call0 (recv c stopCh) (EvRecv stopCh)
                                                 (call0 (cancel c exitCtx) (EvCancel exitCtx) s6))))))))
             else killSandboxContainer c ctx sandbox task s1)"

subsection \<open>StopPodSandbox (lines 35--94)\<close>

text \<open>
  The loop of lines 50--59 over the containers listed at line 49: a container of
  another sandbox is skipped, a container of this one is stopped with timeout 0, and
  the first failure returns.
\<close>

fun stopContainers ::
  "('w, 'cfg, 'pm, 'cpm) criService \<Rightarrow> Context \<Rightarrow> string \<Rightarrow> Container list \<Rightarrow> 'w Exec
     \<Rightarrow> error option \<times> 'w Exec" where
  "stopContainers c ctx id' [] s = (None, s)"
| "stopContainers c ctx id' (container # containers) s =
     (if SandboxID container \<noteq> id' then stopContainers c ctx id' containers s
      else case call (stopContainer c ctx container 0) (EvStopContainer (cntr_ID container) 0) s of
             (Some err, s') \<Rightarrow>
               (Some (Wrapf err ''failed to stop container %q'' [AStr (cntr_ID container)]), s')
           | (None, s') \<Rightarrow> stopContainers c ctx id' containers s')"

text \<open>
  Lines 38--71: find the sandbox, stop its containers, unmount its files, stop the
  sandbox container when the sandbox is ready or unknown. The result is the error
  returned, or the sandbox with which the function goes on to line 73.
\<close>

definition StopPodSandbox_stop ::
  "('w, 'cfg, 'pm, 'cpm) criService \<Rightarrow> Context \<Rightarrow> StopPodSandboxRequest \<Rightarrow> 'w Exec
     \<Rightarrow> (error + 'cfg Sandbox) \<times> 'w Exec" where
  "StopPodSandbox_stop c ctx r s =
     (case sandboxStore_Get c (PodSandboxId r) (world s) of
        Inl err \<Rightarrow>
          (Inl (Wrapf err ''an error occurred when try to find sandbox %q''
                  [AStr (PodSandboxId r)]), s)
      | Inr sandbox \<Rightarrow>
          let id' = ID sandbox;
              containers = containerStore_List c (world s)
          in (case stopContainers c ctx id' containers s of
                (Some err, s1) \<Rightarrow> (Inl err, s1)
              | (None, s1) \<Rightarrow>
                  (case call (unmountSandboxFiles c id' (Config sandbox))
                          (EvUnmountSandboxFiles id') s1 of
                     (Some err, s2) \<Rightarrow> (Inl (Wrap err ''failed to unmount sandbox files''), s2)
                   | (None, s2) \<Rightarrow>
                       let state = Status_Get c sandbox (world s2) in
                       if state = StateReady \<or> state = StateUnknown then
                         (case stopSandboxContainer c ctx sandbox s2 of
                            (Some err, s3) \<Rightarrow>
                              (Inl (Wrapf err ''failed to stop sandbox container %q in %q state''
                                      [AStr id', AState state]), s3)
                          | (None, s3) \<Rightarrow> (Inr sandbox, s3))
                       else (Inr sandbox, s2))))"

text \<open>Lines 73--89: tear the network down when the sandbox has a network namespace.\<close>

definition StopPodSandbox_network ::
  "('w, 'cfg, 'pm, 'cpm) criService \<Rightarrow> 'cfg Sandbox \<Rightarrow> 'w Exec \<Rightarrow> error option \<times> 'w Exec" where
  "StopPodSandbox_network c sandbox s =
     (let id' = ID sandbox in
      case NetNS sandbox of
        None \<Rightarrow> (None, s)
      | Some netns \<Rightarrow>
          (case call (NetNS_Closed c netns) (EvNetNSClosed netns) s of
             (Inl err, s1) \<Rightarrow> (Some (Wrap err ''failed to check network namespace closed''), s1)
           | (Inr closed, s1) \<Rightarrow>
               let netNSPath = (if closed then [] else NetNSPath sandbox) in
               (case teardownPod c id' netNSPath (Config sandbox) s1 of
                  (Some err, s2) \<Rightarrow>
                    (Some (Wrapf err ''failed to destroy network for sandbox %q'' [AStr id']), s2)
                | (None, s2) \<Rightarrow>
                    (case call (NetNS_Remove c netns) (EvNetNSRemove netns) s2 of
                       (Some err, s3) \<Rightarrow>
                         (Some (Wrapf err ''failed to remove network namespace for sandbox %q''
                                  [AStr id']), s3)
                     | (None, s3) \<Rightarrow> (None, s3)))))"

text \<open>The whole function: lines 38--71, then lines 73--89, then lines 91--93.\<close>

definition StopPodSandbox ::
  "('w, 'cfg, 'pm, 'cpm) criService \<Rightarrow> Context \<Rightarrow> StopPodSandboxRequest \<Rightarrow> 'w Exec
     \<Rightarrow> (error + StopPodSandboxResponse) \<times> 'w Exec" where
  "StopPodSandbox c ctx r s =
     (case StopPodSandbox_stop c ctx r s of
        (Inl err, s1) \<Rightarrow> (Inl err, s1)
      | (Inr sandbox, s1) \<Rightarrow>
          (case StopPodSandbox_network c sandbox s1 of
             (Some err, s2) \<Rightarrow> (Inl err, s2)
           | (None, s2) \<Rightarrow>
               (Inr StopPodSandboxResponse,
                s2\<lparr>trace := trace s2 @
                   [EvInfof ''TearDown network for sandbox %q successfully''
                      [AStr (ID sandbox)]]\<rparr>)))"

subsection \<open>Reading the trace\<close>

text \<open>The events a call has added to the trace: those of \<open>s'\<close> after those of \<open>s\<close>.\<close>

definition events_since :: "'w Exec \<Rightarrow> 'w Exec \<Rightarrow> Event list" where
  "events_since s s' = drop (length (trace s)) (trace s')"

text \<open>The step of \<^verbatim>\<open>StopPodSandbox\<close> that an event belongs to.\<close>

datatype Step = StepContainers | StepUnmount | StepSandboxContainer | StepNetwork | StepLog

fun step_of :: "Event \<Rightarrow> Step" where
  "step_of (EvStopContainer k t r) = StepContainers"
| "step_of (EvUnmountSandboxFiles i r) = StepUnmount"
| "step_of (EvNetNSClosed n r) = StepNetwork"
| "step_of (EvTeardownPod i p) = StepNetwork"
| "step_of (EvNetPluginRemove i p r) = StepNetwork"
| "step_of (EvNetNSRemove n r) = StepNetwork"
| "step_of (EvInfof f as) = StepLog"
| "step_of e = StepSandboxContainer"

fun isTaskKill :: "Event \<Rightarrow> bool" where
  "isTaskKill (EvTaskKill t sg r) = True"
| "isTaskKill e = False"

fun isTeardownPod :: "Event \<Rightarrow> bool" where
  "isTeardownPod (EvTeardownPod i p) = True"
| "isTeardownPod e = False"

fun isNetPluginRemove :: "Event \<Rightarrow> bool" where
  "isNetPluginRemove (EvNetPluginRemove i p r) = True"
| "isNetPluginRemove e = False"

fun isNetNSRemove :: "Event \<Rightarrow> bool" where
  "isNetNSRemove (EvNetNSRemove n r) = True"
| "isNetNSRemove e = False"

text \<open>\<open>x\<close> fires strictly before \<open>y\<close>; \<open>None\<close> never fires.\<close>

definition fires_before :: "nat option \<Rightarrow> nat option \<Rightarrow> bool" where
  "fires_before x y =
     (case x of None \<Rightarrow> False
      | Some a \<Rightarrow> (case y of None \<Rightarrow> True | Some b \<Rightarrow> a < b))"

subsection \<open>A concrete service\<close>

text \<open>
  A small concrete world and service, on which the theorems below are instantiated:
  one sandbox \<open>sb1\<close> with a network namespace, three containers of which two belong to
  \<open>sb1\<close>, collaborators that succeed. The namespace object has a closed flag, which
  \<^verbatim>\<open>Remove\<close> sets and \<^verbatim>\<open>Closed\<close> reports; killing the task makes the sandbox stop five
  time units later, and the kill timeout is 120 time units.
\<close>

record FakeWorld =
  fw_state :: State
  fw_closed :: bool
  fw_task :: bool
  fw_clock :: nat
  fw_next :: nat

definition sandbox1 :: "unit Sandbox" where
  "sandbox1 = \<lparr>ID = ''sb1'', Config = (), Container = ContainerHandle 1,
                NetNS = Some (NetNSRef 1), NetNSPath = ''/var/run/netns/cni-1''\<rparr>"

definition containers1 :: "Container list" where
  "containers1 = [\<lparr>cntr_ID = ''c1'', SandboxID = ''sb1''\<rparr>,
                  \<lparr>cntr_ID = ''c2'', SandboxID = ''sb2''\<rparr>,
                  \<lparr>cntr_ID = ''c3'', SandboxID = ''sb1''\<rparr>]"

definition fake :: "(FakeWorld, unit, unit, unit) criService" where
  "fake = \<lparr>
     sandboxStore_Get = (\<lambda>i w. if i = ''sb1'' then Inr sandbox1 else Inl (New ''sandbox does not exist'')),
     containerStore_List = (\<lambda>w. containers1),
     stopContainer = (\<lambda>ctx k t w. (None, w)),
     unmountSandboxFiles = (\<lambda>i cfg w. (None, w)),
     Status_Get = (\<lambda>sb w. fw_state w),
     NetNS_Closed = (\<lambda>n w. (Inr (fw_closed w), w)),
     NetNS_Remove = (\<lambda>n w. (None, w\<lparr>fw_closed := True\<rparr>)),
     netPlugin = Some (\<lambda>i p opts w. (None, w)),
     getPodCNILabels = (\<lambda>i cfg. [(''K8S_POD_INFRA_CONTAINER_ID'', i), (''IgnoreUnknown'', ''1'')]),
     GetPortMappings = (\<lambda>cfg. []),
     toCNIPortMappings = (\<lambda>pms. []),
     Container_Task = (\<lambda>ctx h w. (if fw_task w then Inr (Task 1) else Inl ErrNotFound, w)),
     WithCancel = (\<lambda>parent w. (Ctx (fw_next w), w\<lparr>fw_next := Suc (fw_next w)\<rparr>)),
     cancel = (\<lambda>ctx w. w),
     Task_Wait = (\<lambda>t ctx w. (Inr (Chan (fw_next w)), w\<lparr>fw_next := Suc (fw_next w)\<rparr>)),
     Task_Pid = (\<lambda>t. 42),
     Task_Kill = (\<lambda>ctx t sg w. (None, w\<lparr>fw_task := False\<rparr>)),
     startExitMonitor = (\<lambda>ctx i pid ch w. (Chan (fw_next w), w\<lparr>fw_next := Suc (fw_next w)\<rparr>)),
     recv = (\<lambda>ch w. w),
     killContainerTimeout = 120,
     ctx_Done = (\<lambda>ctx w. None),
     ctx_Err = (\<lambda>ctx w. New ''context canceled''),
     Stopped = (\<lambda>sb w. if fw_state w = StateNotReady then Some 0
                         else if fw_task w then None else Some 5),
     fastrand = (\<lambda>w. fw_clock w),
     elapse = (\<lambda>d w. w\<lparr>fw_clock := fw_clock w + d,
                         fw_state := (if \<not> fw_task w \<and> 5 \<le> d then StateNotReady else fw_state w)\<rparr>),
     handleSandboxExit = (\<lambda>ctx e sb w. (None, w\<lparr>fw_state := StateNotReady\<rparr>)),
     unknownExitCode = 255,
     time_Now = (\<lambda>w. fw_clock w)
   \<rparr>"

definition world1 :: "State \<Rightarrow> bool \<Rightarrow> FakeWorld" where
  "world1 st task = \<lparr>fw_state = st, fw_closed = False, fw_task = task, fw_clock = 0, fw_next = 0\<rparr>"

definition start1 :: "State \<Rightarrow> bool \<Rightarrow> FakeWorld Exec" where
  "start1 st task = \<lparr>world = world1 st task, trace = []\<rparr>"

definition request1 :: StopPodSandboxRequest where
  "request1 = \<lparr>PodSandboxId = ''sb1''\<rparr>"

subsection \<open>Collaborators that succeed\<close>

text \<open>
  The steps of \<^verbatim>\<open>StopPodSandbox\<close> other than stopping the sandbox container succeed
  in every world: stopping a container, unmounting the sandbox files and, when the
  sandbox has a network namespace, asking whether it is closed, the plugin's
  \<^verbatim>\<open>Remove\<close> and removing the namespace.
\<close>

definition others_succeed ::
  "('w, 'cfg, 'pm, 'cpm) criService \<Rightarrow> Context \<Rightarrow> 'cfg Sandbox \<Rightarrow> bool" where
  "others_succeed c ctx sandbox \<longleftrightarrow>
     (\<forall>k w. fst (stopContainer c ctx k 0 w) = None) \<and>
     (\<forall>w. fst (unmountSandboxFiles c (ID sandbox) (Config sandbox) w) = None) \<and>
     (\<forall>netns. NetNS sandbox = Some netns \<longrightarrow>
        (\<forall>w. \<exists>closed. fst (NetNS_Closed c netns w) = Inr closed) \<and>
        (\<exists>Remove. netPlugin c = Some Remove \<and> (\<forall>i p opts w. fst (Remove i p opts w) = None)) \<and>
        (\<forall>w. fst (NetNS_Remove c netns w) = None))"

text \<open>
  The sandbox that a request names is found in the store and is not ready, in a given
  world; and the collaborators that \<^verbatim>\<open>StopPodSandbox\<close> calls for such a sandbox (stopping
  a container, unmounting the files, the three calls of the network step) leave it so.
\<close>

definition not_ready_at ::
  "('w, 'cfg, 'pm, 'cpm) criService \<Rightarrow> StopPodSandboxRequest \<Rightarrow> 'cfg Sandbox \<Rightarrow> 'w \<Rightarrow> bool" where
  "not_ready_at c r sandbox w \<longleftrightarrow>
     sandboxStore_Get c (PodSandboxId r) w = Inr sandbox \<and>
     Status_Get c sandbox w = StateNotReady"

definition keeps_not_ready ::
  "('w, 'cfg, 'pm, 'cpm) criService \<Rightarrow> Context \<Rightarrow> StopPodSandboxRequest \<Rightarrow> 'cfg Sandbox \<Rightarrow> bool" where
  "keeps_not_ready c ctx r sandbox \<longleftrightarrow>
     (\<forall>w. not_ready_at c r sandbox w \<longrightarrow>
        (\<forall>k. not_ready_at c r sandbox (snd (stopContainer c ctx k 0 w))) \<and>
        not_ready_at c r sandbox (snd (unmountSandboxFiles c (ID sandbox) (Config sandbox) w)) \<and>
        (\<forall>netns. NetNS sandbox = Some netns \<longrightarrow>
           not_ready_at c r sandbox (snd (NetNS_Closed c netns w)) \<and>
           not_ready_at c r sandbox (snd (NetNS_Remove c netns w)) \<and>
           (\<forall>Remove p opts. netPlugin c = Some Remove \<longrightarrow>
              not_ready_at c r sandbox (snd (Remove (ID sandbox) p opts w)))))"


section \<open>Properties\<close>

lemmas fake_defs = fake_def sandbox1_def containers1_def world1_def start1_def request1_def

lemmas run_defs = StopPodSandbox_def StopPodSandbox_stop_def StopPodSandbox_network_def
  teardownPod_def call_def call0_def Let_def events_since_def

lemma events_since_append [simp]: "trace s' = trace s @ evs \<Longrightarrow> events_since s s' = evs"
  by (simp add: events_since_def)

subsection \<open>The bounded wait\<close>

text \<open>
  The case that the \<^verbatim>\<open>select\<close> runs is one that is ready at the time it wakes up; the
  list of ready cases is never empty, since the timer fires.
\<close>

lemma earliest_cases:
  "tc = Some (earliest tc tt ts) \<or> tt = earliest tc tt ts \<or> ts = Some (earliest tc tt ts)"
  by (cases tc; cases ts) (simp_all add: earliest_def min_def)

lemma select3_ready:
  assumes "select3 rnd tc tt ts = (chosen, d)"
  shows "d = earliest tc tt ts \<and>
         (case chosen of
            CaseCtxDone \<Rightarrow> tc = Some d
          | CaseTimer \<Rightarrow> tt = d
          | CaseStopped \<Rightarrow> ts = Some d)"
proof -
  let ?d = "earliest tc tt ts"
  let ?ready = "(if tc = Some ?d then [CaseCtxDone] else []) @
                (if tt = ?d then [CaseTimer] else []) @
                (if ts = Some ?d then [CaseStopped] else [])"
  have "snd (select3 rnd tc tt ts) = ?d"
    and "fst (select3 rnd tc tt ts) = ?ready ! (rnd mod length ?ready)"
    by (simp_all add: select3_def Let_def)
  with assms have d: "d = ?d" and ch: "chosen = ?ready ! (rnd mod length ?ready)"
    by simp_all
  from earliest_cases [of tc tt ts] have "?ready \<noteq> []" by auto
  then have "rnd mod length ?ready < length ?ready" by simp
  then have "?ready ! (rnd mod length ?ready) \<in> set ?ready" by (rule nth_mem)
  with ch have "chosen \<in> set ?ready" by simp
  with d show ?thesis
    by (cases chosen) (auto split: if_splits)
qed

lemma select3_first_ctx:
  assumes "fires_before tc (Some tt)" and "fires_before tc ts"
  shows "fst (select3 rnd tc tt ts) = CaseCtxDone"
proof -
  from assms(1) obtain a where a: "tc = Some a" "a < tt"
    by (cases tc) (simp_all add: fires_before_def)
  from assms(2) a have ts: "ts \<noteq> Some a" and ts': "\<And>b. ts = Some b \<Longrightarrow> a < b"
    by (cases ts; simp add: fires_before_def)+
  have e: "earliest tc tt ts = a"
    using a ts' by (cases ts) (simp_all add: earliest_def)
  from a have "tt \<noteq> a" by simp
  with a ts show ?thesis
    unfolding select3_def e Let_def by simp
qed

lemma select3_first_timer:
  assumes "fires_before (Some tt) tc" and "fires_before (Some tt) ts"
  shows "fst (select3 rnd tc tt ts) = CaseTimer"
proof -
  from assms(1) have tc: "tc \<noteq> Some tt" and tc': "\<And>a. tc = Some a \<Longrightarrow> tt < a"
    by (cases tc; simp add: fires_before_def)+
  from assms(2) have ts: "ts \<noteq> Some tt" and ts': "\<And>b. ts = Some b \<Longrightarrow> tt < b"
    by (cases ts; simp add: fires_before_def)+
  have e: "earliest tc tt ts = tt"
    using tc' ts' by (cases tc; cases ts) (simp_all add: earliest_def)
  from tc ts show ?thesis
    unfolding select3_def e Let_def by simp
qed

lemma select3_first_stopped:
  assumes "fires_before ts tc" and "fires_before ts (Some tt)"
  shows "fst (select3 rnd tc tt ts) = CaseStopped"
proof -
  from assms(2) obtain b where b: "ts = Some b" "b < tt"
    by (cases ts) (simp_all add: fires_before_def)
  from assms(1) b have tc: "tc \<noteq> Some b" and tc': "\<And>a. tc = Some a \<Longrightarrow> b < a"
    by (cases tc; simp add: fires_before_def)+
  have e: "earliest tc tt ts = b"
    using b tc' by (cases tc) (simp_all add: earliest_def)
  from b have "tt \<noteq> b" by simp
  with b tc show ?thesis
    unfolding select3_def e Let_def by simp
qed

lemma waitSandboxStop_by_case:
  "fst (waitSandboxStop c ctx sandbox timeout s) =
     (case fst (select3 (fastrand c (world s)) (ctx_Done c ctx (world s)) (nat timeout)
                  (Stopped c sandbox (world s))) of
        CaseCtxDone \<Rightarrow>
          Some (Wrapf (ctx_Err c ctx (world (snd (waitSandboxStop c ctx sandbox timeout s))))
                  ''wait sandbox container %q is cancelled'' [AStr (ID sandbox)])
      | CaseTimer \<Rightarrow> Some (Errorf ''wait sandbox container %q stop timeout'' [AStr (ID sandbox)])
      | CaseStopped \<Rightarrow> None)"
  by (simp add: waitSandboxStop_def Let_def split: prod.splits SelectCase.splits)

text \<open>
  Claim C2. \<^verbatim>\<open>waitSandboxStop\<close> races the context's cancellation, a timer that fires
  after the timeout and the sandbox's stopped signal. Time is counted from the moment
  the wait starts, so a signal that has fired already fires at 0. When the context ends
  strictly before the other two, the result is the context's error wrapped in a message
  with the sandbox ID; when the timer fires strictly first, a timeout error with the
  sandbox ID; when the stopped signal fires strictly first, success. In every case,
  ties included, the result is exactly one of these three outcomes.
\<close>

theorem waitSandboxStop_race:
  "let tc = ctx_Done c ctx (world s);
       tt = Some (nat timeout);
       ts = Stopped c sandbox (world s);
       res = waitSandboxStop c ctx sandbox timeout s;
       cancelled = Some (Wrapf (ctx_Err c ctx (world (snd res)))
                           ''wait sandbox container %q is cancelled'' [AStr (ID sandbox)]);
       timedout = Some (Errorf ''wait sandbox container %q stop timeout'' [AStr (ID sandbox)])
   in (fires_before tc tt \<and> fires_before tc ts \<longrightarrow> fst res = cancelled) \<and>
      (fires_before tt tc \<and> fires_before tt ts \<longrightarrow> fst res = timedout) \<and>
      (fires_before ts tc \<and> fires_before ts tt \<longrightarrow> fst res = None) \<and>
      length (filter (\<lambda>outcome. fst res = outcome) [cancelled, timedout, None]) = 1"
proof -
  let ?pick = "fst (select3 (fastrand c (world s)) (ctx_Done c ctx (world s)) (nat timeout)
                  (Stopped c sandbox (world s)))"
  note by_case = waitSandboxStop_by_case [of c ctx sandbox timeout s]
  have one: "fires_before (ctx_Done c ctx (world s)) (Some (nat timeout)) \<Longrightarrow>
             fires_before (ctx_Done c ctx (world s)) (Stopped c sandbox (world s)) \<Longrightarrow>
             ?pick = CaseCtxDone"
    by (rule select3_first_ctx)
  have two: "fires_before (Some (nat timeout)) (ctx_Done c ctx (world s)) \<Longrightarrow>
             fires_before (Some (nat timeout)) (Stopped c sandbox (world s)) \<Longrightarrow>
             ?pick = CaseTimer"
    by (rule select3_first_timer)
  have three: "fires_before (Stopped c sandbox (world s)) (ctx_Done c ctx (world s)) \<Longrightarrow>
             fires_before (Stopped c sandbox (world s)) (Some (nat timeout)) \<Longrightarrow>
             ?pick = CaseStopped"
    by (rule select3_first_stopped)
  show ?thesis
    unfolding Let_def
    using by_case one two three
    by (cases ?pick) auto
qed

text \<open>
  The three cases on the concrete service: a context cancelled after 1 with a timeout
  of 120, a timeout of 3 with a sandbox that stops after 5, and a sandbox that stops
  after 5 with a timeout of 120.
\<close>

theorem waitSandboxStop_race_witness:
  "fst (waitSandboxStop (fake\<lparr>ctx_Done := (\<lambda>ctx w. Some 1)\<rparr>) (Ctx 100) sandbox1 120
          (start1 StateReady False)) =
     Some (Wrapf (New ''context canceled'') ''wait sandbox container %q is cancelled''
             [AStr ''sb1'']) \<and>
   fst (waitSandboxStop fake (Ctx 100) sandbox1 3 (start1 StateReady False)) =
     Some (Errorf ''wait sandbox container %q stop timeout'' [AStr ''sb1'']) \<and>
   fst (waitSandboxStop fake (Ctx 100) sandbox1 120 (start1 StateReady False)) = None"
  using waitSandboxStop_race [of "fake\<lparr>ctx_Done := (\<lambda>ctx w. Some 1)\<rparr>" "Ctx 100"
          "start1 StateReady False" 120 sandbox1]
        waitSandboxStop_race [of fake "Ctx 100" "start1 StateReady False" 3 sandbox1]
        waitSandboxStop_race [of fake "Ctx 100" "start1 StateReady False" 120 sandbox1]
  by (simp add: Let_def fires_before_def fake_defs)

subsection \<open>Stopping the sandbox container\<close>

lemma waitSandboxStop_trace:
  assumes "waitSandboxStop c ctx sandbox timeout s = (r, s')"
  shows "\<exists>chosen d. trace s' = trace s @ [EvSelect chosen d]"
  using assms
  by (auto simp: waitSandboxStop_def call0_def Let_def split: prod.splits SelectCase.splits)

lemma killSandboxContainer_trace:
  assumes "killSandboxContainer c ctx sandbox task s = (r, s')"
  shows "\<exists>kr rest. trace s' = trace s @ EvTaskKill task SIGKILL kr # rest \<and>
           (rest = [] \<or> (\<exists>chosen d. rest = [EvSelect chosen d]))"
  using assms
  by (auto simp: killSandboxContainer_def call_def split: prod.splits option.splits if_splits
           dest!: waitSandboxStop_trace)

lemma cleanupUnknownSandbox_trace:
  assumes "cleanupUnknownSandbox c ctx id' sandbox s = (r, s')"
  shows "\<exists>e. trace s' = trace s @ [EvHandleSandboxExit e (ID sandbox) r]"
  using assms
  by (auto simp: cleanupUnknownSandbox_def call_def Let_def split: prod.splits)

lemma stopSandboxContainer_trace:
  assumes "stopSandboxContainer c ctx sandbox s = (r, s')"
  shows "\<exists>tr rest. trace s' = trace s @ EvTask (Container sandbox) tr # rest \<and>
           (\<forall>e \<in> set rest. step_of e = StepSandboxContainer)"
  using assms
  by (auto simp: stopSandboxContainer_def call_def call0_def Let_def
           split: prod.splits sum.splits if_splits
           dest!: killSandboxContainer_trace cleanupUnknownSandbox_trace)

text \<open>
  Claim C5. \<^verbatim>\<open>cleanupUnknownSandbox\<close> builds one task-exit event whose container ID and
  ID are the sandbox ID it is given, whose pid is 0, whose exit status is
  \<^verbatim>\<open>unknownExitCode\<close> and whose time is the current time; it calls \<^verbatim>\<open>handleSandboxExit\<close>
  with that event, once, and returns what that call returns.
\<close>

theorem cleanupUnknownSandbox_synthetic_exit:
  "let e = \<lparr>ContainerID = id', exit_ID = id', Pid = 0, ExitStatus = unknownExitCode c,
              ExitedAt = time_Now c (world s)\<rparr>;
       handled = handleSandboxExit c ctx e sandbox (world s);
       res = cleanupUnknownSandbox c ctx id' sandbox s
   in fst res = fst handled \<and>
      world (snd res) = snd handled \<and>
      events_since s (snd res) = [EvHandleSandboxExit e (ID sandbox) (fst handled)]"
  by (simp add: cleanupUnknownSandbox_def call_def Let_def split: prod.splits)

text \<open>
  Claim C4. When the task query of \<^verbatim>\<open>stopSandboxContainer\<close> fails with not-found, the
  function returns what \<^verbatim>\<open>cleanupUnknownSandbox\<close> returns if the sandbox is in the unknown
  state, and otherwise returns success having done nothing after the query; any other
  error of the query is returned, wrapped.
\<close>

theorem stopSandboxContainer_task_error:
  assumes "Container_Task c ctx (Container sandbox) (world s) = (Inl err, w1)"
  shows "let s1 = \<lparr>world = w1, trace = trace s @ [EvTask (Container sandbox) (Inl err)]\<rparr>;
             res = stopSandboxContainer c ctx sandbox s
         in (IsNotFound err \<and> Status_Get c sandbox (world s) = StateUnknown \<longrightarrow>
               res = cleanupUnknownSandbox c ctx (ID sandbox) sandbox s1) \<and>
            (IsNotFound err \<and> Status_Get c sandbox (world s) \<noteq> StateUnknown \<longrightarrow>
               res = (None, s1)) \<and>
            (\<not> IsNotFound err \<longrightarrow>
               res = (Some (Wrap err ''failed to get sandbox container''), s1))"
  using assms by (simp add: stopSandboxContainer_def call_def Let_def)

text \<open>
  The three cases on the concrete service: no task and an unknown sandbox, no task
  and a ready sandbox, a task query that fails with another error.
\<close>

theorem stopSandboxContainer_task_error_witness:
  "stopSandboxContainer fake (Ctx 100) sandbox1 (start1 StateUnknown False) =
     cleanupUnknownSandbox fake (Ctx 100) (ID sandbox1) sandbox1
       \<lparr>world = world1 StateUnknown False,
          trace = [EvTask (Container sandbox1) (Inl ErrNotFound)]\<rparr> \<and>
   stopSandboxContainer fake (Ctx 100) sandbox1 (start1 StateReady False) =
     (None, \<lparr>world = world1 StateReady False,
               trace = [EvTask (Container sandbox1) (Inl ErrNotFound)]\<rparr>) \<and>
   stopSandboxContainer (fake\<lparr>Container_Task := (\<lambda>ctx h w. (Inl (New ''unavailable''), w))\<rparr>)
       (Ctx 100) sandbox1 (start1 StateReady True) =
     (Some (Wrap (New ''unavailable'') ''failed to get sandbox container''),
      \<lparr>world = world1 StateReady True,
         trace = [EvTask (Container sandbox1) (Inl (New ''unavailable''))]\<rparr>)"
proof -
  let ?down = "fake\<lparr>Container_Task := (\<lambda>ctx h w. (Inl (New ''unavailable''), w))\<rparr>"
  have h1: "Container_Task fake (Ctx 100) (Container sandbox1) (world (start1 StateUnknown False)) =
     (Inl ErrNotFound, world1 StateUnknown False)"
    by (simp add: fake_defs)
  have h2: "Container_Task fake (Ctx 100) (Container sandbox1) (world (start1 StateReady False)) =
     (Inl ErrNotFound, world1 StateReady False)"
    by (simp add: fake_defs)
  have h3: "Container_Task ?down (Ctx 100) (Container sandbox1) (world (start1 StateReady True)) =
     (Inl (New ''unavailable''), world1 StateReady True)"
    by (simp add: fake_defs)
  have s1: "Status_Get fake sandbox1 (world (start1 StateUnknown False)) = StateUnknown"
    and s2: "Status_Get fake sandbox1 (world (start1 StateReady False)) \<noteq> StateUnknown"
    and tr: "\<And>st t. trace (start1 st t) = []"
    by (simp_all add: fake_defs)
  from stopSandboxContainer_task_error [OF h1] stopSandboxContainer_task_error [OF h2]
       stopSandboxContainer_task_error [OF h3] s1 s2 tr
  show ?thesis
    by (simp add: Let_def IsNotFound_def)
qed

lemma killSandboxContainer_kill:
  assumes "Task_Kill c ctx task SIGKILL (world s) = (kr, w')"
    and "killSandboxContainer c ctx sandbox task s = (r, s')"
  shows "\<exists>rest. trace s' = trace s @ EvTaskKill task SIGKILL kr # rest \<and>
           (rest = [] \<or> (\<exists>chosen d. rest = [EvSelect chosen d]))"
  using assms
  by (auto simp: killSandboxContainer_def call_def split: option.splits if_splits
           dest!: waitSandboxStop_trace)

lemma stopSandboxContainer_unknown_kill:
  assumes "Status_Get c sandbox (world s) = StateUnknown"
    and "Container_Task c ctx (Container sandbox) (world s) = (Inr task, w1)"
    and "WithCancel c NamespacedContext w1 = (waitCtx, w2)"
    and "Task_Wait c task waitCtx w2 = (Inr exitCh, w3)"
    and "WithCancel c Background w3 = (exitCtx, w4)"
    and "startExitMonitor c exitCtx (ID sandbox) (Task_Pid c task) exitCh w4 = (stopCh, w5)"
    and "Task_Kill c ctx task SIGKILL w5 = (kr, w6)"
    and "stopSandboxContainer c ctx sandbox s = (r, s')"
  shows "\<exists>rest.
           trace s' = trace s @
             [EvTask (Container sandbox) (Inr task),
              EvWithCancel NamespacedContext waitCtx,
              EvTaskWait task waitCtx (Inr exitCh),
              EvWithCancel Background exitCtx,
              EvStartExitMonitor exitCtx (ID sandbox) (Task_Pid c task) exitCh stopCh,
              EvTaskKill task SIGKILL kr] @ rest \<and>
           \<not> list_ex isTaskKill rest"
proof -
  let ?s5 = "\<lparr>world = w5, trace = trace s @
             [EvTask (Container sandbox) (Inr task),
              EvWithCancel NamespacedContext waitCtx,
              EvTaskWait task waitCtx (Inr exitCh),
              EvWithCancel Background exitCtx,
              EvStartExitMonitor exitCtx (ID sandbox) (Task_Pid c task) exitCh stopCh]\<rparr>"
  obtain kres s6 where run: "killSandboxContainer c ctx sandbox task ?s5 = (kres, s6)"
    by (cases "killSandboxContainer c ctx sandbox task ?s5")
  from assms(7) have "Task_Kill c ctx task SIGKILL (world ?s5) = (kr, w6)" by simp
  from killSandboxContainer_kill [OF this run] obtain rest
    where rest: "trace s6 = trace ?s5 @ EvTaskKill task SIGKILL kr # rest"
      "rest = [] \<or> (\<exists>chosen d. rest = [EvSelect chosen d])"
    by blast
  from assms(1-6,8) run
  have "trace s' = trace s6 @ [EvCancel exitCtx, EvRecv stopCh, EvCancel waitCtx]"
    by (auto simp: stopSandboxContainer_def call_def call0_def Let_def)
  with rest show ?thesis by auto
qed

lemma stopSandboxContainer_first:
  assumes "stopSandboxContainer c ctx sandbox s = (r, s')"
  shows "\<exists>rest. trace s' = trace s @
            EvTask (Container sandbox) (fst (Container_Task c ctx (Container sandbox) (world s))) # rest \<and>
           (\<forall>e \<in> set rest. step_of e = StepSandboxContainer)"
  using assms
  by (auto simp: stopSandboxContainer_def call_def call0_def Let_def
           split: prod.splits sum.splits if_splits
           dest!: killSandboxContainer_trace cleanupUnknownSandbox_trace)

text \<open>
  Claim C3. For a sandbox in the unknown state whose task exists,
  \<^verbatim>\<open>stopSandboxContainer\<close> subscribes first and kills afterwards. When \<^verbatim>\<open>task.Wait\<close>
  succeeds, the first six events of the call are, in this order, the task query, the
  wait context, the successful \<^verbatim>\<open>Wait\<close>, the exit context, the registration with the exit
  monitor of the channel that \<^verbatim>\<open>Wait\<close> returned, and the kill of the task; no other kill
  follows. When \<^verbatim>\<open>task.Wait\<close> fails, the call sends no kill.
\<close>

theorem stopSandboxContainer_subscribes_before_kill:
  assumes unknown: "Status_Get c sandbox (world s) = StateUnknown"
    and task: "Container_Task c ctx (Container sandbox) (world s) = (Inr task, w1)"
    and wc: "WithCancel c NamespacedContext w1 = (waitCtx, w2)"
    and wait: "Task_Wait c task waitCtx w2 = (wr, w3)"
  shows "let evs = events_since s (snd (stopSandboxContainer c ctx sandbox s))
         in case wr of
              Inl err \<Rightarrow>
                take 3 evs = [EvTask (Container sandbox) (Inr task),
                              EvWithCancel NamespacedContext waitCtx,
                              EvTaskWait task waitCtx (Inl err)] \<and>
                \<not> list_ex isTaskKill evs
            | Inr exitCh \<Rightarrow>
                (let exitCtx = fst (WithCancel c Background w3);
                     w4 = snd (WithCancel c Background w3);
                     monitor = startExitMonitor c exitCtx (ID sandbox) (Task_Pid c task) exitCh w4;
                     stopCh = fst monitor;
                     kr = fst (Task_Kill c ctx task SIGKILL (snd monitor))
                 in take 6 evs = [EvTask (Container sandbox) (Inr task),
                                  EvWithCancel NamespacedContext waitCtx,
                                  EvTaskWait task waitCtx (Inr exitCh),
                                  EvWithCancel Background exitCtx,
                                  EvStartExitMonitor exitCtx (ID sandbox) (Task_Pid c task)
                                    exitCh stopCh,
                                  EvTaskKill task SIGKILL kr] \<and>
                    \<not> list_ex isTaskKill (drop 6 evs))"
proof -
  obtain r s' where run: "stopSandboxContainer c ctx sandbox s = (r, s')"
    by (cases "stopSandboxContainer c ctx sandbox s")
  show ?thesis
  proof (cases wr)
    case (Inl err)
    with wait have wait': "Task_Wait c task waitCtx w2 = (Inl err, w3)" by simp
    have "\<exists>rest. trace s' = trace s @ [EvTask (Container sandbox) (Inr task),
                              EvWithCancel NamespacedContext waitCtx,
                              EvTaskWait task waitCtx (Inl err)] @ rest \<and>
                  \<not> list_ex isTaskKill rest"
      using unknown task wc wait' run
      by (auto simp: stopSandboxContainer_def call_def call0_def Let_def
               split: prod.splits if_splits
               dest!: cleanupUnknownSandbox_trace)
    then obtain rest where "trace s' = trace s @ [EvTask (Container sandbox) (Inr task),
                              EvWithCancel NamespacedContext waitCtx,
                              EvTaskWait task waitCtx (Inl err)] @ rest"
      and "\<not> list_ex isTaskKill rest"
      by blast
    then have "events_since s s' = [EvTask (Container sandbox) (Inr task),
                              EvWithCancel NamespacedContext waitCtx,
                              EvTaskWait task waitCtx (Inl err)] @ rest"
      and "\<not> list_ex isTaskKill rest"
      by simp_all
    with run Inl show ?thesis by (simp add: Let_def)
  next
    case (Inr exitCh)
    with wait have wait': "Task_Wait c task waitCtx w2 = (Inr exitCh, w3)" by simp
    obtain exitCtx w4 where ec: "WithCancel c Background w3 = (exitCtx, w4)"
      by (cases "WithCancel c Background w3")
    obtain stopCh w5
      where mon: "startExitMonitor c exitCtx (ID sandbox) (Task_Pid c task) exitCh w4 = (stopCh, w5)"
      by (cases "startExitMonitor c exitCtx (ID sandbox) (Task_Pid c task) exitCh w4")
    obtain kr w6 where kill: "Task_Kill c ctx task SIGKILL w5 = (kr, w6)"
      by (cases "Task_Kill c ctx task SIGKILL w5")
    from stopSandboxContainer_unknown_kill [OF unknown task wc wait' ec mon kill run]
    obtain rest where "trace s' = trace s @
             [EvTask (Container sandbox) (Inr task),
              EvWithCancel NamespacedContext waitCtx,
              EvTaskWait task waitCtx (Inr exitCh),
              EvWithCancel Background exitCtx,
              EvStartExitMonitor exitCtx (ID sandbox) (Task_Pid c task) exitCh stopCh,
              EvTaskKill task SIGKILL kr] @ rest"
      and rest: "\<not> list_ex isTaskKill rest"
      by blast
    then have "events_since s s' =
             [EvTask (Container sandbox) (Inr task),
              EvWithCancel NamespacedContext waitCtx,
              EvTaskWait task waitCtx (Inr exitCh),
              EvWithCancel Background exitCtx,
              EvStartExitMonitor exitCtx (ID sandbox) (Task_Pid c task) exitCh stopCh,
              EvTaskKill task SIGKILL kr] @ rest"
      by simp
    with run Inr ec mon kill rest show ?thesis by (simp add: Let_def)
  qed
qed

text \<open>
  On the concrete service, with an unknown sandbox whose task exists: the six events
  with the kill last, and no kill when \<^verbatim>\<open>Wait\<close> reports not-found.
\<close>

theorem stopSandboxContainer_subscribes_before_kill_witness:
  "take 6 (events_since (start1 StateUnknown True)
            (snd (stopSandboxContainer fake (Ctx 100) sandbox1 (start1 StateUnknown True)))) =
     [EvTask (ContainerHandle 1) (Inr (Task 1)),
      EvWithCancel NamespacedContext (Ctx 0),
      EvTaskWait (Task 1) (Ctx 0) (Inr (Chan 1)),
      EvWithCancel Background (Ctx 2),
      EvStartExitMonitor (Ctx 2) ''sb1'' 42 (Chan 1) (Chan 3),
      EvTaskKill (Task 1) SIGKILL None] \<and>
   \<not> list_ex isTaskKill
       (drop 6 (events_since (start1 StateUnknown True)
                  (snd (stopSandboxContainer fake (Ctx 100) sandbox1 (start1 StateUnknown True))))) \<and>
   \<not> list_ex isTaskKill
       (events_since (start1 StateUnknown True)
          (snd (stopSandboxContainer
                  (fake\<lparr>Task_Wait := (\<lambda>t ctx w. (Inl ErrNotFound, w))\<rparr>) (Ctx 100) sandbox1
                  (start1 StateUnknown True))))"
proof -
  let ?gone = "fake\<lparr>Task_Wait := (\<lambda>t ctx w. (Inl ErrNotFound, w))\<rparr>"
  let ?s = "start1 StateUnknown True"
  let ?w1 = "world1 StateUnknown True"
  have h1: "Status_Get fake sandbox1 (world ?s) = StateUnknown"
    and h2: "Container_Task fake (Ctx 100) (Container sandbox1) (world ?s) = (Inr (Task 1), ?w1)"
    and h3: "WithCancel fake NamespacedContext ?w1 = (Ctx 0, ?w1\<lparr>fw_next := 1\<rparr>)"
    and h4: "Task_Wait fake (Task 1) (Ctx 0) (?w1\<lparr>fw_next := 1\<rparr>) =
               (Inr (Chan 1), ?w1\<lparr>fw_next := 2\<rparr>)"
    by (simp_all add: fake_defs)
  have g1: "Status_Get ?gone sandbox1 (world ?s) = StateUnknown"
    and g2: "Container_Task ?gone (Ctx 100) (Container sandbox1) (world ?s) = (Inr (Task 1), ?w1)"
    and g3: "WithCancel ?gone NamespacedContext ?w1 = (Ctx 0, ?w1\<lparr>fw_next := 1\<rparr>)"
    and g4: "Task_Wait ?gone (Task 1) (Ctx 0) (?w1\<lparr>fw_next := 1\<rparr>) =
               (Inl ErrNotFound, ?w1\<lparr>fw_next := 1\<rparr>)"
    by (simp_all add: fake_defs)
  from stopSandboxContainer_subscribes_before_kill [OF h1 h2 h3 h4]
       stopSandboxContainer_subscribes_before_kill [OF g1 g2 g3 g4]
  show ?thesis
    by (simp add: Let_def fake_defs)
qed

subsection \<open>The steps of StopPodSandbox\<close>

lemma isTaskKill_step: "isTaskKill e \<Longrightarrow> step_of e = StepSandboxContainer"
  by (cases e) simp_all

lemma stopContainers_trace:
  "stopContainers c ctx id' cs s = (res, s') \<Longrightarrow>
     (res = None \<and>
      trace s' = trace s @ map (\<lambda>k. EvStopContainer (cntr_ID k) 0 None)
                             (filter (\<lambda>k. SandboxID k = id') cs)) \<or>
     (\<exists>n err. n < length (filter (\<lambda>k. SandboxID k = id') cs) \<and>
        trace s' = trace s @ map (\<lambda>k. EvStopContainer (cntr_ID k) 0 None)
                               (take n (filter (\<lambda>k. SandboxID k = id') cs)) @
                     [EvStopContainer (cntr_ID (filter (\<lambda>k. SandboxID k = id') cs ! n)) 0 (Some err)] \<and>
        res = Some (Wrapf err ''failed to stop container %q''
                      [AStr (cntr_ID (filter (\<lambda>k. SandboxID k = id') cs ! n))]))"
proof (induction cs arbitrary: s)
  case Nil
  then show ?case by simp
next
  case (Cons k cs)
  show ?case
  proof (cases "SandboxID k = id'")
    case False
    with Cons.prems have "stopContainers c ctx id' cs s = (res, s')" by simp
    from Cons.IH [OF this] False show ?thesis by simp
  next
    case True
    obtain kr w' where stop: "stopContainer c ctx k 0 (world s) = (kr, w')"
      by (cases "stopContainer c ctx k 0 (world s)")
    let ?s1 = "\<lparr>world = w', trace = trace s @ [EvStopContainer (cntr_ID k) 0 kr]\<rparr>"
    show ?thesis
    proof (cases kr)
      case (Some err)
      with Cons.prems True stop
      have "res = Some (Wrapf err ''failed to stop container %q'' [AStr (cntr_ID k)])"
        and "trace s' = trace s @ [EvStopContainer (cntr_ID k) 0 (Some err)]"
        by (auto simp: call_def)
      with True have "0 < length (filter (\<lambda>k. SandboxID k = id') (k # cs)) \<and>
        trace s' = trace s @ map (\<lambda>k. EvStopContainer (cntr_ID k) 0 None)
                               (take 0 (filter (\<lambda>k. SandboxID k = id') (k # cs))) @
                     [EvStopContainer (cntr_ID (filter (\<lambda>k. SandboxID k = id') (k # cs) ! 0)) 0 (Some err)] \<and>
        res = Some (Wrapf err ''failed to stop container %q''
                      [AStr (cntr_ID (filter (\<lambda>k. SandboxID k = id') (k # cs) ! 0))])"
        by simp
      then show ?thesis by blast
    next
      case None
      with Cons.prems True stop have rest: "stopContainers c ctx id' cs ?s1 = (res, s')"
        by (simp add: call_def)
      from Cons.IH [OF rest] show ?thesis
      proof (elim disjE exE conjE)
        assume "res = None"
          and "trace s' = trace ?s1 @ map (\<lambda>k. EvStopContainer (cntr_ID k) 0 None)
                             (filter (\<lambda>k. SandboxID k = id') cs)"
        with True None show ?thesis by simp
      next
        fix n err
        assume n: "n < length (filter (\<lambda>k. SandboxID k = id') cs)"
          and tr: "trace s' = trace ?s1 @ map (\<lambda>k. EvStopContainer (cntr_ID k) 0 None)
                               (take n (filter (\<lambda>k. SandboxID k = id') cs)) @
                     [EvStopContainer (cntr_ID (filter (\<lambda>k. SandboxID k = id') cs ! n)) 0 (Some err)]"
          and res: "res = Some (Wrapf err ''failed to stop container %q''
                      [AStr (cntr_ID (filter (\<lambda>k. SandboxID k = id') cs ! n))])"
        from n tr res True None
        have "Suc n < length (filter (\<lambda>k. SandboxID k = id') (k # cs)) \<and>
          trace s' = trace s @ map (\<lambda>k. EvStopContainer (cntr_ID k) 0 None)
                               (take (Suc n) (filter (\<lambda>k. SandboxID k = id') (k # cs))) @
                     [EvStopContainer (cntr_ID (filter (\<lambda>k. SandboxID k = id') (k # cs) ! Suc n)) 0 (Some err)] \<and>
          res = Some (Wrapf err ''failed to stop container %q''
                      [AStr (cntr_ID (filter (\<lambda>k. SandboxID k = id') (k # cs) ! Suc n))])"
          by simp
        then show ?thesis by blast
      qed
    qed
  qed
qed

lemma stopContainers_steps:
  assumes "stopContainers c ctx id' cs s = (res, s')"
  shows "\<exists>evs. trace s' = trace s @ evs \<and> (\<forall>e \<in> set evs. step_of e = StepContainers)"
  using stopContainers_trace [OF assms] by auto

lemma StopPodSandbox_stop_trace:
  assumes "StopPodSandbox_stop c ctx r s = (res, s')"
  shows "\<exists>evs. trace s' = trace s @ evs \<and>
           (\<forall>e \<in> set evs. step_of e = StepContainers \<or> step_of e = StepUnmount \<or>
                           step_of e = StepSandboxContainer)"
  using assms
  by (auto simp: StopPodSandbox_stop_def call_def Let_def
           split: sum.splits prod.splits option.splits if_splits
           dest!: stopContainers_steps stopSandboxContainer_trace)

lemma StopPodSandbox_network_none:
  "NetNS sandbox = None \<Longrightarrow> StopPodSandbox_network c sandbox s = (None, s)"
  by (simp add: StopPodSandbox_network_def)

lemma StopPodSandbox_network_closed_error:
  assumes "NetNS sandbox = Some netns"
    and "NetNS_Closed c netns (world s) = (Inl err, w1)"
  shows "StopPodSandbox_network c sandbox s =
           (Some (Wrap err ''failed to check network namespace closed''),
            \<lparr>world = w1, trace = trace s @ [EvNetNSClosed netns (Inl err)]\<rparr>)"
  using assms by (simp add: StopPodSandbox_network_def call_def)

lemma teardownPod_trace:
  assumes "teardownPod c id' path config s = (res, s')"
  shows "(netPlugin c = None \<and> res = Some (New ''cni config not initialized'') \<and>
          world s' = world s \<and> trace s' = trace s @ [EvTeardownPod id' path]) \<or>
         (netPlugin c \<noteq> None \<and>
          trace s' = trace s @ [EvTeardownPod id' path, EvNetPluginRemove id' path res])"
  using assms
  by (auto simp: teardownPod_def call_def Let_def split: option.splits prod.splits)

lemma StopPodSandbox_network_events:
  assumes "NetNS sandbox = Some netns"
    and "NetNS_Closed c netns (world s) = (Inr closed, w1)"
    and "StopPodSandbox_network c sandbox s = (res, s')"
  shows "\<exists>rest. trace s' = trace s @ EvNetNSClosed netns (Inr closed) #
                     EvTeardownPod (ID sandbox) (if closed then [] else NetNSPath sandbox) # rest \<and>
           ((netPlugin c = None \<and> rest = [] \<and>
             res = Some (Wrapf (New ''cni config not initialized'')
                           ''failed to destroy network for sandbox %q'' [AStr (ID sandbox)])) \<or>
            (\<exists>err. netPlugin c \<noteq> None \<and>
               rest = [EvNetPluginRemove (ID sandbox)
                         (if closed then [] else NetNSPath sandbox) (Some err)] \<and>
               res = Some (Wrapf err ''failed to destroy network for sandbox %q''
                             [AStr (ID sandbox)])) \<or>
            (\<exists>rr. netPlugin c \<noteq> None \<and>
               rest = [EvNetPluginRemove (ID sandbox)
                         (if closed then [] else NetNSPath sandbox) None,
                       EvNetNSRemove netns rr] \<and>
               (res = None) = (rr = None)))"
  using assms
  by (auto simp: StopPodSandbox_network_def call_def Let_def
           split: prod.splits option.splits
           dest!: teardownPod_trace)

lemma StopPodSandbox_network_plugin:
  assumes netns: "NetNS sandbox = Some netns"
    and closed: "NetNS_Closed c netns (world s) = (Inr closed, w1)"
    and plugin: "netPlugin c = Some Remove"
    and remove: "Remove (ID sandbox) (if closed then [] else NetNSPath sandbox)
                   [WithLabels (getPodCNILabels c (ID sandbox) (Config sandbox)),
                    WithCapabilityPortMap (toCNIPortMappings c (GetPortMappings c (Config sandbox)))]
                   w1 = (pr, w2)"
    and nsremove: "NetNS_Remove c netns w2 = (rr, w3)"
  shows "StopPodSandbox_network c sandbox s =
           (case pr of
              Some err \<Rightarrow>
                (Some (Wrapf err ''failed to destroy network for sandbox %q'' [AStr (ID sandbox)]),
                 \<lparr>world = w2,
                    trace = trace s @
                      [EvNetNSClosed netns (Inr closed),
                       EvTeardownPod (ID sandbox) (if closed then [] else NetNSPath sandbox),
                       EvNetPluginRemove (ID sandbox) (if closed then [] else NetNSPath sandbox)
                         (Some err)]\<rparr>)
            | None \<Rightarrow>
                (case rr of
                   Some err \<Rightarrow>
                     Some (Wrapf err ''failed to remove network namespace for sandbox %q''
                             [AStr (ID sandbox)])
                 | None \<Rightarrow> None,
                 \<lparr>world = w3,
                    trace = trace s @
                      [EvNetNSClosed netns (Inr closed),
                       EvTeardownPod (ID sandbox) (if closed then [] else NetNSPath sandbox),
                       EvNetPluginRemove (ID sandbox) (if closed then [] else NetNSPath sandbox) None,
                       EvNetNSRemove netns rr]\<rparr>))"
  using assms
  by (cases closed; cases pr; cases rr)
     (simp_all add: StopPodSandbox_network_def teardownPod_def call_def Let_def)

lemma StopPodSandbox_network_trace:
  assumes "StopPodSandbox_network c sandbox s = (res, s')"
  shows "\<exists>evs. trace s' = trace s @ evs \<and> (\<forall>e \<in> set evs. step_of e = StepNetwork) \<and>
           length (filter isTeardownPod evs) \<le> 1"
proof (cases "NetNS sandbox")
  case None
  with assms show ?thesis by (simp add: StopPodSandbox_network_none)
next
  case (Some netns)
  obtain cr w1 where closed: "NetNS_Closed c netns (world s) = (cr, w1)"
    by (cases "NetNS_Closed c netns (world s)")
  show ?thesis
  proof (cases cr)
    case (Inl err)
    with assms Some closed show ?thesis
      by (auto simp: StopPodSandbox_network_closed_error)
  next
    case (Inr b)
    with closed have "NetNS_Closed c netns (world s) = (Inr b, w1)" by simp
    from StopPodSandbox_network_events [OF Some this assms] show ?thesis
      by auto
  qed
qed

lemma StopPodSandbox_after_stop:
  assumes "StopPodSandbox_stop c ctx r s = (Inr sandbox, s1)"
    and "StopPodSandbox_network c sandbox s1 = (res, s2)"
  shows "StopPodSandbox c ctx r s =
           (case res of
              Some err \<Rightarrow> (Inl err, s2)
            | None \<Rightarrow> (Inr StopPodSandboxResponse,
                        s2\<lparr>trace := trace s2 @
                          [EvInfof ''TearDown network for sandbox %q successfully''
                             [AStr (ID sandbox)]]\<rparr>))"
  using assms by (simp add: StopPodSandbox_def split: option.splits)

lemma StopPodSandbox_stop_failed:
  assumes "StopPodSandbox_stop c ctx r s = (Inl err, s1)"
  shows "StopPodSandbox c ctx r s = (Inl err, s1)"
  using assms by (simp add: StopPodSandbox_def)

lemma StopPodSandbox_trace:
  "\<exists>evs. trace (snd (StopPodSandbox c ctx r s)) = trace s @ evs \<and>
         length (filter isTeardownPod evs) \<le> 1"
proof -
  obtain res s1 where stop: "StopPodSandbox_stop c ctx r s = (res, s1)"
    by (cases "StopPodSandbox_stop c ctx r s")
  from StopPodSandbox_stop_trace [OF stop] obtain evs1
    where evs1: "trace s1 = trace s @ evs1"
      and steps: "\<forall>e \<in> set evs1. step_of e = StepContainers \<or> step_of e = StepUnmount \<or>
                           step_of e = StepSandboxContainer"
    by blast
  have "\<not> isTeardownPod e" if "e \<in> set evs1" for e
    using steps that by (cases e) auto
  then have none: "filter isTeardownPod evs1 = []"
    by (simp add: filter_empty_conv)
  show ?thesis
  proof (cases res)
    case (Inl err)
    with stop evs1 none show ?thesis
      by (simp add: StopPodSandbox_stop_failed)
  next
    case (Inr sandbox)
    obtain nr s2 where net: "StopPodSandbox_network c sandbox s1 = (nr, s2)"
      by (cases "StopPodSandbox_network c sandbox s1")
    from StopPodSandbox_network_trace [OF net] obtain evs2
      where evs2: "trace s2 = trace s1 @ evs2" "length (filter isTeardownPod evs2) \<le> 1"
      by blast
    from stop Inr have "StopPodSandbox_stop c ctx r s = (Inr sandbox, s1)" by simp
    from StopPodSandbox_after_stop [OF this net] evs1 evs2 none show ?thesis
      by (cases nr) simp_all
  qed
qed

lemma StopPodSandbox_after_containers:
  assumes get: "sandboxStore_Get c (PodSandboxId r) (world s) = Inr sandbox"
    and loop: "stopContainers c ctx (ID sandbox) (containerStore_List c (world s)) s = (None, s1)"
  shows "\<exists>rest. trace (snd (StopPodSandbox c ctx r s)) = trace s1 @ rest \<and>
           (\<forall>e \<in> set rest. step_of e \<noteq> StepContainers)"
proof -
  obtain ur w2 where unmount: "unmountSandboxFiles c (ID sandbox) (Config sandbox) (world s1) = (ur, w2)"
    by (cases "unmountSandboxFiles c (ID sandbox) (Config sandbox) (world s1)")
  let ?s2 = "\<lparr>world = w2, trace = trace s1 @ [EvUnmountSandboxFiles (ID sandbox) ur]\<rparr>"
  show ?thesis
  proof (cases ur)
    case (Some err)
    with get loop unmount
    have "StopPodSandbox c ctx r s = (Inl (Wrap err ''failed to unmount sandbox files''), ?s2)"
      by (simp add: StopPodSandbox_def StopPodSandbox_stop_def call_def)
    then show ?thesis by simp
  next
    case None
    obtain res s3 where stop: "StopPodSandbox_stop c ctx r s = (res, s3)"
      by (cases "StopPodSandbox_stop c ctx r s")
    have s3: "\<exists>evs. trace s3 = trace ?s2 @ evs \<and> (\<forall>e \<in> set evs. step_of e = StepSandboxContainer)"
      using stop get loop unmount None
      by (auto simp: StopPodSandbox_stop_def call_def Let_def
               split: prod.splits option.splits if_splits
               dest!: stopSandboxContainer_trace)
    then obtain evs where evs: "trace s3 = trace ?s2 @ evs"
      "\<forall>e \<in> set evs. step_of e = StepSandboxContainer"
      by blast
    show ?thesis
    proof (cases res)
      case (Inl err)
      with stop evs show ?thesis
        by (auto simp: StopPodSandbox_stop_failed)
    next
      case (Inr sb)
      obtain nr s4 where net: "StopPodSandbox_network c sb s3 = (nr, s4)"
        by (cases "StopPodSandbox_network c sb s3")
      from StopPodSandbox_network_trace [OF net] obtain evs2
        where evs2: "trace s4 = trace s3 @ evs2" "\<forall>e \<in> set evs2. step_of e = StepNetwork"
        by blast
      from stop Inr have "StopPodSandbox_stop c ctx r s = (Inr sb, s3)" by simp
      from StopPodSandbox_after_stop [OF this net] evs evs2 show ?thesis
        by (cases nr) auto
    qed
  qed
qed

lemma fake_stop_not_ready:
  "StopPodSandbox_stop (fake\<lparr>netPlugin := p, NetNS_Closed := q\<rparr>) (Ctx 100) request1
     (start1 StateNotReady False) =
   (Inr sandbox1,
    \<lparr>world = world1 StateNotReady False,
       trace = [EvStopContainer ''c1'' 0 None, EvStopContainer ''c3'' 0 None,
                EvUnmountSandboxFiles ''sb1'' None]\<rparr>)"
  by (simp add: StopPodSandbox_stop_def call_def fake_defs Let_def)

lemma fake_same: "fake\<lparr>netPlugin := netPlugin fake, NetNS_Closed := NetNS_Closed fake\<rparr> = fake"
  by simp

subsection \<open>The containers of the sandbox\<close>

text \<open>
  Claim C8. \<^verbatim>\<open>StopPodSandbox\<close> lists the containers of the store and stops, in the
  order of the list and with timeout 0, those whose sandbox ID is the ID of the sandbox
  it found, and no other. Either all of them are stopped and no container is stopped
  later in the call, or the first stop that fails ends the call: nothing else happens
  and the call returns that error, wrapped in a message with the ID of that container.
\<close>

theorem StopPodSandbox_stops_member_containers:
  assumes get: "sandboxStore_Get c (PodSandboxId r) (world s) = Inr sandbox"
  shows "let mine = filter (\<lambda>k. SandboxID k = ID sandbox) (containerStore_List c (world s));
             res = StopPodSandbox c ctx r s;
             evs = events_since s (snd res)
         in (\<exists>rest. evs = map (\<lambda>k. EvStopContainer (cntr_ID k) 0 None) mine @ rest \<and>
               (\<forall>e \<in> set rest. step_of e \<noteq> StepContainers)) \<or>
            (\<exists>n err. n < length mine \<and>
               evs = map (\<lambda>k. EvStopContainer (cntr_ID k) 0 None) (take n mine) @
                       [EvStopContainer (cntr_ID (mine ! n)) 0 (Some err)] \<and>
               fst res = Inl (Wrapf err ''failed to stop container %q''
                                [AStr (cntr_ID (mine ! n))]))"
proof -
  let ?mine = "filter (\<lambda>k. SandboxID k = ID sandbox) (containerStore_List c (world s))"
  obtain lr s1
    where loop: "stopContainers c ctx (ID sandbox) (containerStore_List c (world s)) s = (lr, s1)"
    by (cases "stopContainers c ctx (ID sandbox) (containerStore_List c (world s)) s")
  from stopContainers_trace [OF loop] show ?thesis
  proof (elim disjE exE conjE)
    assume lr: "lr = None"
      and tr: "trace s1 = trace s @ map (\<lambda>k. EvStopContainer (cntr_ID k) 0 None) ?mine"
    from loop lr StopPodSandbox_after_containers [OF get] obtain rest
      where "trace (snd (StopPodSandbox c ctx r s)) = trace s1 @ rest"
        and "\<forall>e \<in> set rest. step_of e \<noteq> StepContainers"
      by blast
    with tr have "events_since s (snd (StopPodSandbox c ctx r s)) =
                    map (\<lambda>k. EvStopContainer (cntr_ID k) 0 None) ?mine @ rest \<and>
                  (\<forall>e \<in> set rest. step_of e \<noteq> StepContainers)"
      by simp
    then show ?thesis unfolding Let_def by blast
  next
    fix n err
    assume n: "n < length ?mine"
      and tr: "trace s1 = trace s @ map (\<lambda>k. EvStopContainer (cntr_ID k) 0 None) (take n ?mine) @
                     [EvStopContainer (cntr_ID (?mine ! n)) 0 (Some err)]"
      and lr: "lr = Some (Wrapf err ''failed to stop container %q'' [AStr (cntr_ID (?mine ! n))])"
    from get loop lr
    have "StopPodSandbox c ctx r s =
            (Inl (Wrapf err ''failed to stop container %q'' [AStr (cntr_ID (?mine ! n))]), s1)"
      by (simp add: StopPodSandbox_def StopPodSandbox_stop_def)
    with n tr have "n < length ?mine \<and>
               events_since s (snd (StopPodSandbox c ctx r s)) =
                 map (\<lambda>k. EvStopContainer (cntr_ID k) 0 None) (take n ?mine) @
                       [EvStopContainer (cntr_ID (?mine ! n)) 0 (Some err)] \<and>
               fst (StopPodSandbox c ctx r s) =
                 Inl (Wrapf err ''failed to stop container %q'' [AStr (cntr_ID (?mine ! n))])"
      by simp
    then show ?thesis unfolding Let_def by blast
  qed
qed

text \<open>
  On the concrete service, with a ready sandbox.
\<close>

theorem StopPodSandbox_stops_member_containers_witness:
  "sandboxStore_Get fake (PodSandboxId request1) (world (start1 StateReady True)) = Inr sandbox1 \<and>
   (let mine = filter (\<lambda>k. SandboxID k = ID sandbox1)
                 (containerStore_List fake (world (start1 StateReady True)));
        res = StopPodSandbox fake (Ctx 100) request1 (start1 StateReady True);
        evs = events_since (start1 StateReady True) (snd res)
    in (\<exists>rest. evs = map (\<lambda>k. EvStopContainer (cntr_ID k) 0 None) mine @ rest \<and>
          (\<forall>e \<in> set rest. step_of e \<noteq> StepContainers)) \<or>
       (\<exists>n err. n < length mine \<and>
          evs = map (\<lambda>k. EvStopContainer (cntr_ID k) 0 None) (take n mine) @
                  [EvStopContainer (cntr_ID (mine ! n)) 0 (Some err)] \<and>
          fst res = Inl (Wrapf err ''failed to stop container %q''
                           [AStr (cntr_ID (mine ! n))])))"
proof -
  have h: "sandboxStore_Get fake (PodSandboxId request1) (world (start1 StateReady True)) =
             Inr sandbox1"
    by (simp add: fake_defs)
  from h StopPodSandbox_stops_member_containers [OF h, of "Ctx 100"] show ?thesis
    by (intro conjI)
qed

subsection \<open>The sandbox container\<close>

lemma stopContainers_succeeds:
  assumes "\<forall>k w. fst (stopContainer c ctx k 0 w) = None"
  shows "fst (stopContainers c ctx id' cs s) = None"
proof (induction cs arbitrary: s)
  case Nil
  show ?case by simp
next
  case (Cons k cs)
  from assms have "fst (stopContainer c ctx k 0 (world s)) = None" by blast
  then obtain w' where "stopContainer c ctx k 0 (world s) = (None, w')"
    by (cases "stopContainer c ctx k 0 (world s)") simp
  with Cons.IH show ?case by (simp add: call_def)
qed

lemma StopPodSandbox_network_succeeds:
  assumes "others_succeed c ctx sandbox"
  shows "fst (StopPodSandbox_network c sandbox s) = None"
proof (cases "NetNS sandbox")
  case None
  then show ?thesis by (simp add: StopPodSandbox_network_none)
next
  case (Some netns)
  with assms obtain Remove
    where closed: "\<forall>w. \<exists>closed. fst (NetNS_Closed c netns w) = Inr closed"
      and plugin: "netPlugin c = Some Remove"
      and remove: "\<forall>i p opts w. fst (Remove i p opts w) = None"
      and nsremove: "\<forall>w. fst (NetNS_Remove c netns w) = None"
    unfolding others_succeed_def by blast
  from closed obtain b w1 where 1: "NetNS_Closed c netns (world s) = (Inr b, w1)"
    by (metis prod.collapse)
  let ?path = "if b then [] else NetNSPath sandbox"
  let ?opts = "[WithLabels (getPodCNILabels c (ID sandbox) (Config sandbox)),
                WithCapabilityPortMap (toCNIPortMappings c (GetPortMappings c (Config sandbox)))]"
  from remove obtain w2 where 2: "Remove (ID sandbox) ?path ?opts w1 = (None, w2)"
    by (metis prod.collapse)
  from nsremove obtain w3 where 3: "NetNS_Remove c netns w2 = (None, w3)"
    by (metis prod.collapse)
  from Some plugin 1 2 3 show ?thesis
    by (simp add: StopPodSandbox_network_def teardownPod_def call_def Let_def)
qed

lemma stopContainers_keeps:
  assumes keeps: "keeps_not_ready c ctx r sandbox"
  shows "not_ready_at c r sandbox (world s) \<Longrightarrow>
         not_ready_at c r sandbox (world (snd (stopContainers c ctx id' cs s)))"
proof (induction cs arbitrary: s)
  case Nil
  then show ?case by simp
next
  case (Cons k cs)
  obtain kr w' where stop: "stopContainer c ctx k 0 (world s) = (kr, w')"
    by (cases "stopContainer c ctx k 0 (world s)")
  from keeps Cons.prems have "not_ready_at c r sandbox (snd (stopContainer c ctx k 0 (world s)))"
    unfolding keeps_not_ready_def by blast
  with stop have w': "not_ready_at c r sandbox w'" by simp
  let ?s1 = "\<lparr>world = w', trace = trace s @ [EvStopContainer (cntr_ID k) 0 kr]\<rparr>"
  from w' have "not_ready_at c r sandbox (world ?s1)" by simp
  from Cons.IH [OF this] Cons.IH [OF Cons.prems] stop w' show ?case
    by (cases kr) (simp_all add: call_def)
qed

lemma StopPodSandbox_network_keeps:
  assumes keeps: "keeps_not_ready c ctx r sandbox"
    and inv: "not_ready_at c r sandbox (world s)"
  shows "not_ready_at c r sandbox (world (snd (StopPodSandbox_network c sandbox s)))"
proof (cases "NetNS sandbox")
  case None
  with inv show ?thesis by (simp add: StopPodSandbox_network_none)
next
  case (Some netns)
  obtain cr w1 where closed: "NetNS_Closed c netns (world s) = (cr, w1)"
    by (cases "NetNS_Closed c netns (world s)")
  from keeps inv Some have "not_ready_at c r sandbox (snd (NetNS_Closed c netns (world s)))"
    unfolding keeps_not_ready_def by blast
  with closed have w1: "not_ready_at c r sandbox w1" by simp
  show ?thesis
  proof (cases cr)
    case (Inl err)
    with closed Some w1 show ?thesis
      by (simp add: StopPodSandbox_network_closed_error)
  next
    case (Inr b)
    show ?thesis
    proof (cases "netPlugin c")
      case None
      with Some closed Inr w1 show ?thesis
        by (simp add: StopPodSandbox_network_def teardownPod_def call_def Let_def)
    next
      case (Some Remove)
      let ?path = "if b then [] else NetNSPath sandbox"
      let ?opts = "[WithLabels (getPodCNILabels c (ID sandbox) (Config sandbox)),
                WithCapabilityPortMap (toCNIPortMappings c (GetPortMappings c (Config sandbox)))]"
      obtain pr w2 where remove: "Remove (ID sandbox) ?path ?opts w1 = (pr, w2)"
        by (cases "Remove (ID sandbox) ?path ?opts w1")
      obtain rr w3 where nsremove: "NetNS_Remove c netns w2 = (rr, w3)"
        by (cases "NetNS_Remove c netns w2")
      from keeps w1 \<open>NetNS sandbox = Some netns\<close> Some
      have "not_ready_at c r sandbox (snd (Remove (ID sandbox) ?path ?opts w1))"
        unfolding keeps_not_ready_def by blast
      with remove have w2: "not_ready_at c r sandbox w2" by simp
      from keeps w2 \<open>NetNS sandbox = Some netns\<close>
      have "not_ready_at c r sandbox (snd (NetNS_Remove c netns w2))"
        unfolding keeps_not_ready_def by blast
      with nsremove have w3: "not_ready_at c r sandbox w3" by simp
      from closed Inr have "NetNS_Closed c netns (world s) = (Inr b, w1)" by simp
      from StopPodSandbox_network_plugin [OF \<open>NetNS sandbox = Some netns\<close> this Some remove nsremove]
           w2 w3
      show ?thesis by (cases pr) simp_all
    qed
  qed
qed

lemma StopPodSandbox_not_ready_call:
  assumes keeps: "keeps_not_ready c ctx r sandbox"
    and inv: "not_ready_at c r sandbox (world s)"
  shows "\<exists>evs. trace (snd (StopPodSandbox c ctx r s)) = trace s @ evs \<and>
           (\<forall>e \<in> set evs. step_of e \<noteq> StepSandboxContainer) \<and>
           not_ready_at c r sandbox (world (snd (StopPodSandbox c ctx r s))) \<and>
           (others_succeed c ctx sandbox \<longrightarrow>
              fst (StopPodSandbox c ctx r s) = Inr StopPodSandboxResponse)"
proof -
  from inv have get: "sandboxStore_Get c (PodSandboxId r) (world s) = Inr sandbox"
    by (simp add: not_ready_at_def)
  obtain lr s1
    where loop: "stopContainers c ctx (ID sandbox) (containerStore_List c (world s)) s = (lr, s1)"
    by (cases "stopContainers c ctx (ID sandbox) (containerStore_List c (world s)) s")
  from stopContainers_steps [OF loop] obtain evs0
    where evs0: "trace s1 = trace s @ evs0" "\<forall>e \<in> set evs0. step_of e = StepContainers"
    by blast
  from stopContainers_keeps [OF keeps inv, of "ID sandbox" "containerStore_List c (world s)"] loop
  have inv1: "not_ready_at c r sandbox (world s1)" by simp
  show ?thesis
  proof (cases lr)
    case (Some err)
    with get loop have run: "StopPodSandbox c ctx r s = (Inl err, s1)"
      by (simp add: StopPodSandbox_def StopPodSandbox_stop_def)
    have "\<not> others_succeed c ctx sandbox"
    proof
      assume "others_succeed c ctx sandbox"
      then have "\<forall>k w. fst (stopContainer c ctx k 0 w) = None"
        unfolding others_succeed_def by blast
      from stopContainers_succeeds [OF this, of "ID sandbox" "containerStore_List c (world s)" s]
           loop Some
      show False by simp
    qed
    with run evs0 inv1 show ?thesis by auto
  next
    case None
    obtain ur w2
      where unmount: "unmountSandboxFiles c (ID sandbox) (Config sandbox) (world s1) = (ur, w2)"
      by (cases "unmountSandboxFiles c (ID sandbox) (Config sandbox) (world s1)")
    from keeps inv1
    have "not_ready_at c r sandbox (snd (unmountSandboxFiles c (ID sandbox) (Config sandbox) (world s1)))"
      unfolding keeps_not_ready_def by blast
    with unmount have inv2: "not_ready_at c r sandbox w2" by simp
    let ?s2 = "\<lparr>world = w2, trace = trace s1 @ [EvUnmountSandboxFiles (ID sandbox) ur]\<rparr>"
    show ?thesis
    proof (cases ur)
      case (Some err)
      with get loop None unmount
      have run: "StopPodSandbox c ctx r s = (Inl (Wrap err ''failed to unmount sandbox files''), ?s2)"
        by (simp add: StopPodSandbox_def StopPodSandbox_stop_def call_def)
      have "\<not> others_succeed c ctx sandbox"
      proof
        assume "others_succeed c ctx sandbox"
        then have "fst (unmountSandboxFiles c (ID sandbox) (Config sandbox) (world s1)) = None"
          unfolding others_succeed_def by blast
        with unmount Some show False by simp
      qed
      with run evs0 inv2 show ?thesis by auto
    next
      case ur: None
      from inv2 have "Status_Get c sandbox w2 = StateNotReady"
        by (simp add: not_ready_at_def)
      with get loop None unmount ur
      have stop: "StopPodSandbox_stop c ctx r s = (Inr sandbox, ?s2)"
        by (simp add: StopPodSandbox_stop_def call_def)
      obtain nr s3 where net: "StopPodSandbox_network c sandbox ?s2 = (nr, s3)"
        by (cases "StopPodSandbox_network c sandbox ?s2")
      from StopPodSandbox_network_trace [OF net] obtain evs2
        where evs2: "trace s3 = trace ?s2 @ evs2" "\<forall>e \<in> set evs2. step_of e = StepNetwork"
        by blast
      from inv2 have "not_ready_at c r sandbox (world ?s2)" by simp
      from StopPodSandbox_network_keeps [OF keeps this] net
      have inv3: "not_ready_at c r sandbox (world s3)" by simp
      from StopPodSandbox_network_succeeds [of c ctx sandbox ?s2] net
      have nr: "others_succeed c ctx sandbox \<Longrightarrow> nr = None" by simp
      from StopPodSandbox_after_stop [OF stop net] evs0 evs2 inv3 nr show ?thesis
        by (cases nr) auto
    qed
  qed
qed

text \<open>
  Claim C6. When \<^verbatim>\<open>StopPodSandbox\<close> has found the sandbox, stopped its containers and
  unmounted its files, it runs \<^verbatim>\<open>stopSandboxContainer\<close> if and only if the state of the
  sandbox, read at that moment, is ready or unknown. Then the events of the call after
  the unmount are those of one run of \<^verbatim>\<open>stopSandboxContainer\<close> from that state, which
  start with the query of the sandbox container's task, followed only by events of the
  network step and the log, and an error of that run is returned wrapped. Otherwise the
  network step follows the unmount directly and the task is never queried. For a
  sandbox that is not ready and that the other collaborators leave so, two calls in a
  row send no kill and do nothing else to the sandbox container, and both succeed when
  the other steps do.
\<close>

theorem StopPodSandbox_stops_sandbox_container_iff:
  "let run = StopPodSandbox c ctx r s;
       s2 = \<lparr>world = w2, trace = trace s1 @ [EvUnmountSandboxFiles (ID sandbox) None]\<rparr>;
       state = Status_Get c sandbox w2;
       live = (state = StateReady \<or> state = StateUnknown);
       infra = stopSandboxContainer c ctx sandbox s2;
       reached = (sandboxStore_Get c (PodSandboxId r) (world s) = Inr sandbox \<and>
                  stopContainers c ctx (ID sandbox) (containerStore_List c (world s)) s = (None, s1) \<and>
                  unmountSandboxFiles c (ID sandbox) (Config sandbox) (world s1) = (None, w2))
   in (reached \<longrightarrow>
         (\<exists>rest. events_since s1 (snd run) =
                    EvUnmountSandboxFiles (ID sandbox) None #
                    (if live then events_since s2 (snd infra) else []) @ rest \<and>
                  (\<forall>e \<in> set rest. step_of e = StepNetwork \<or> step_of e = StepLog)) \<and>
         (live \<longrightarrow>
            take 2 (events_since s1 (snd run)) =
              [EvUnmountSandboxFiles (ID sandbox) None,
               EvTask (Container sandbox) (fst (Container_Task c ctx (Container sandbox) w2))]) \<and>
         ((\<exists>tr. EvTask (Container sandbox) tr \<in> set (events_since s (snd run))) \<longleftrightarrow> live) \<and>
         (live \<longrightarrow>
            (\<forall>err. fst infra = Some err \<longrightarrow>
               run = (Inl (Wrapf err ''failed to stop sandbox container %q in %q state''
                             [AStr (ID sandbox), AState state]), snd infra)))) \<and>
      (keeps_not_ready c ctx r sandbox \<and> not_ready_at c r sandbox (world s) \<longrightarrow>
         (let second = StopPodSandbox c ctx r (snd run)
          in (\<forall>e \<in> set (events_since s (snd second)).
                step_of e \<noteq> StepSandboxContainer \<and> \<not> isTaskKill e) \<and>
             (others_succeed c ctx sandbox \<longrightarrow>
                fst run = Inr StopPodSandboxResponse \<and>
                fst second = Inr StopPodSandboxResponse)))"
proof -
  let ?run = "StopPodSandbox c ctx r s"
  let ?s2 = "\<lparr>world = w2, trace = trace s1 @ [EvUnmountSandboxFiles (ID sandbox) None]\<rparr>"
  let ?state = "Status_Get c sandbox w2"
  let ?live = "?state = StateReady \<or> ?state = StateUnknown"
  let ?infra = "stopSandboxContainer c ctx sandbox ?s2"
  let ?unmount = "EvUnmountSandboxFiles (ID sandbox) None"
  let ?task = "EvTask (Container sandbox) (fst (Container_Task c ctx (Container sandbox) w2))"
  have a: "(\<exists>rest. events_since s1 (snd ?run) =
                    ?unmount # (if ?live then events_since ?s2 (snd ?infra) else []) @ rest \<and>
                  (\<forall>e \<in> set rest. step_of e = StepNetwork \<or> step_of e = StepLog)) \<and>
         (?live \<longrightarrow> take 2 (events_since s1 (snd ?run)) = [?unmount, ?task]) \<and>
         ((\<exists>tr. EvTask (Container sandbox) tr \<in> set (events_since s (snd ?run))) \<longleftrightarrow> ?live) \<and>
         (?live \<longrightarrow>
            (\<forall>err. fst ?infra = Some err \<longrightarrow>
               ?run = (Inl (Wrapf err ''failed to stop sandbox container %q in %q state''
                             [AStr (ID sandbox), AState ?state]), snd ?infra)))"
    if get: "sandboxStore_Get c (PodSandboxId r) (world s) = Inr sandbox"
      and loop: "stopContainers c ctx (ID sandbox) (containerStore_List c (world s)) s = (None, s1)"
      and unmount: "unmountSandboxFiles c (ID sandbox) (Config sandbox) (world s1) = (None, w2)"
  proof -
    from stopContainers_steps [OF loop] obtain evs0
      where evs0: "trace s1 = trace s @ evs0" "\<forall>e \<in> set evs0. step_of e = StepContainers"
      by blast
    obtain ir s3 where infra: "?infra = (ir, s3)"
      by (cases ?infra)
    from stopSandboxContainer_first [OF infra] obtain irest
      where s3: "trace s3 = trace ?s2 @ ?task # irest"
        and irest: "\<forall>e \<in> set irest. step_of e = StepSandboxContainer"
      by auto
    then have ievs: "events_since ?s2 s3 = ?task # irest" by simp
    let ?mid = "if ?live then ?task # irest else []"
    have shape: "\<exists>rest. trace (snd ?run) = trace ?s2 @ ?mid @ rest \<and>
                   (\<forall>e \<in> set rest. step_of e = StepNetwork \<or> step_of e = StepLog)"
      and failed: "?live \<Longrightarrow> ir = Some err \<Longrightarrow>
                     ?run = (Inl (Wrapf err ''failed to stop sandbox container %q in %q state''
                             [AStr (ID sandbox), AState ?state]), s3)" for err
    proof -
      have stop: "StopPodSandbox_stop c ctx r s =
                    (if ?live
                     then (case ir of
                             Some err \<Rightarrow>
                               (Inl (Wrapf err ''failed to stop sandbox container %q in %q state''
                                       [AStr (ID sandbox), AState ?state]), s3)
                           | None \<Rightarrow> (Inr sandbox, s3))
                     else (Inr sandbox, ?s2))"
        using get loop unmount infra
        by (cases ir) (simp_all add: StopPodSandbox_stop_def call_def Let_def)
      have after: "\<exists>rest. trace (snd ?run) = trace s' @ rest \<and>
                     (\<forall>e \<in> set rest. step_of e = StepNetwork \<or> step_of e = StepLog)"
        if "StopPodSandbox_stop c ctx r s = (Inr sandbox, s')" for s'
      proof -
        obtain nr s4 where net: "StopPodSandbox_network c sandbox s' = (nr, s4)"
          by (cases "StopPodSandbox_network c sandbox s'")
        from StopPodSandbox_network_trace [OF net] obtain evs2
          where evs2: "trace s4 = trace s' @ evs2" "\<forall>e \<in> set evs2. step_of e = StepNetwork"
          by blast
        from StopPodSandbox_after_stop [OF that net] evs2 show ?thesis
          by (cases nr) auto
      qed
      show "\<exists>rest. trace (snd ?run) = trace ?s2 @ ?mid @ rest \<and>
                   (\<forall>e \<in> set rest. step_of e = StepNetwork \<or> step_of e = StepLog)"
      proof (cases ?live)
        case False
        with stop have "StopPodSandbox_stop c ctx r s = (Inr sandbox, ?s2)" by simp
        from after [OF this] False show ?thesis by simp
      next
        case True
        show ?thesis
        proof (cases ir)
          case (Some err)
          with stop True have "StopPodSandbox_stop c ctx r s =
              (Inl (Wrapf err ''failed to stop sandbox container %q in %q state''
                                       [AStr (ID sandbox), AState ?state]), s3)"
            by simp
          then have "snd ?run = s3" by (simp add: StopPodSandbox_stop_failed)
          with s3 True show ?thesis by simp
        next
          case None
          with stop True have "StopPodSandbox_stop c ctx r s = (Inr sandbox, s3)" by simp
          from after [OF this] s3 True show ?thesis by auto
        qed
      qed
      show "?run = (Inl (Wrapf err ''failed to stop sandbox container %q in %q state''
                             [AStr (ID sandbox), AState ?state]), s3)"
        if "?live" and "ir = Some err"
        using stop that by (simp add: StopPodSandbox_stop_failed)
    qed
    from shape obtain rest where rest: "trace (snd ?run) = trace ?s2 @ ?mid @ rest"
      "\<forall>e \<in> set rest. step_of e = StepNetwork \<or> step_of e = StepLog"
      by blast
    from rest(1) have e1: "events_since s1 (snd ?run) = ?unmount # ?mid @ rest"
      by (simp add: events_since_def)
    from rest(1) evs0(1) have e0: "events_since s (snd ?run) = evs0 @ ?unmount # ?mid @ rest"
      by (simp add: events_since_def)
    have no0: "EvTask (Container sandbox) tr \<notin> set evs0" for tr
      using evs0(2) by fastforce
    have no2: "EvTask (Container sandbox) tr \<notin> set rest" for tr
      using rest(2) by fastforce
    have 1: "\<exists>rest. events_since s1 (snd ?run) =
                    ?unmount # (if ?live then events_since ?s2 (snd ?infra) else []) @ rest \<and>
                  (\<forall>e \<in> set rest. step_of e = StepNetwork \<or> step_of e = StepLog)"
      using e1 rest(2) infra ievs by (cases ?live) auto
    have 2: "?live \<longrightarrow> take 2 (events_since s1 (snd ?run)) = [?unmount, ?task]"
      using e1 by simp
    have 3: "(\<exists>tr. EvTask (Container sandbox) tr \<in> set (events_since s (snd ?run))) \<longleftrightarrow> ?live"
      using e0 no0 no2 by (cases ?live) auto
    have 4: "?live \<longrightarrow>
            (\<forall>err. fst ?infra = Some err \<longrightarrow>
               ?run = (Inl (Wrapf err ''failed to stop sandbox container %q in %q state''
                             [AStr (ID sandbox), AState ?state]), snd ?infra))"
      using failed infra by simp
    from 1 2 3 4 show ?thesis by blast
  qed
  have b: "(\<forall>e \<in> set (events_since s (snd (StopPodSandbox c ctx r (snd ?run)))).
                step_of e \<noteq> StepSandboxContainer \<and> \<not> isTaskKill e) \<and>
             (others_succeed c ctx sandbox \<longrightarrow>
                fst ?run = Inr StopPodSandboxResponse \<and>
                fst (StopPodSandbox c ctx r (snd ?run)) = Inr StopPodSandboxResponse)"
    if keeps: "keeps_not_ready c ctx r sandbox" and inv: "not_ready_at c r sandbox (world s)"
  proof -
    let ?second = "StopPodSandbox c ctx r (snd ?run)"
    from StopPodSandbox_not_ready_call [OF keeps inv] obtain evs1
      where 1: "trace (snd ?run) = trace s @ evs1"
        "\<forall>e \<in> set evs1. step_of e \<noteq> StepSandboxContainer"
        "not_ready_at c r sandbox (world (snd ?run))"
        "others_succeed c ctx sandbox \<longrightarrow> fst ?run = Inr StopPodSandboxResponse"
      by blast
    from StopPodSandbox_not_ready_call [OF keeps 1(3)] obtain evs2
      where 2: "trace (snd ?second) = trace (snd ?run) @ evs2"
        "\<forall>e \<in> set evs2. step_of e \<noteq> StepSandboxContainer"
        "others_succeed c ctx sandbox \<longrightarrow> fst ?second = Inr StopPodSandboxResponse"
      by blast
    from 1 2 have "events_since s (snd ?second) = evs1 @ evs2" by simp
    with 1 2 show ?thesis
      by (auto dest: isTaskKill_step)
  qed
  from a b show ?thesis
    unfolding Let_def by blast
qed

text \<open>
  On the concrete service: a ready sandbox whose task exists, and a sandbox that is
  not ready, stopped twice.
\<close>

theorem StopPodSandbox_stops_sandbox_container_iff_witness:
  "take 2 (events_since
             \<lparr>world = world1 StateReady True,
                trace = [EvStopContainer ''c1'' 0 None, EvStopContainer ''c3'' 0 None]\<rparr>
             (snd (StopPodSandbox fake (Ctx 100) request1 (start1 StateReady True)))) =
     [EvUnmountSandboxFiles ''sb1'' None, EvTask (ContainerHandle 1) (Inr (Task 1))] \<and>
   fst (StopPodSandbox fake (Ctx 100) request1 (start1 StateNotReady False)) =
     Inr StopPodSandboxResponse \<and>
   fst (StopPodSandbox fake (Ctx 100) request1
          (snd (StopPodSandbox fake (Ctx 100) request1 (start1 StateNotReady False)))) =
     Inr StopPodSandboxResponse \<and>
   filter (\<lambda>e. step_of e = StepSandboxContainer \<or> isTaskKill e)
     (events_since (start1 StateNotReady False)
        (snd (StopPodSandbox fake (Ctx 100) request1
                (snd (StopPodSandbox fake (Ctx 100) request1 (start1 StateNotReady False)))))) = []"
proof -
  let ?live = "start1 StateReady True"
  let ?l1 = "\<lparr>world = world1 StateReady True,
               trace = [EvStopContainer ''c1'' 0 None, EvStopContainer ''c3'' 0 None]\<rparr>"
  let ?quiet = "start1 StateNotReady False"
  have a: "sandboxStore_Get fake (PodSandboxId request1) (world ?live) = Inr sandbox1"
    "stopContainers fake (Ctx 100) (ID sandbox1) (containerStore_List fake (world ?live)) ?live =
       (None, ?l1)"
    "unmountSandboxFiles fake (ID sandbox1) (Config sandbox1) (world ?l1) =
       (None, world1 StateReady True)"
    by (simp_all add: fake_defs call_def)
  have st: "Status_Get fake sandbox1 (world1 StateReady True) = StateReady"
    "Container_Task fake (Ctx 100) (Container sandbox1) (world1 StateReady True) =
       (Inr (Task 1), world1 StateReady True)"
    "ID sandbox1 = ''sb1''" "Container sandbox1 = ContainerHandle 1"
    by (simp_all add: fake_defs)
  have k: "keeps_not_ready fake (Ctx 100) request1 sandbox1"
    by (simp add: keeps_not_ready_def not_ready_at_def fake_defs)
  have n: "not_ready_at fake request1 sandbox1 (world ?quiet)"
    by (simp add: not_ready_at_def fake_defs)
  have o: "others_succeed fake (Ctx 100) sandbox1"
    by (simp add: others_succeed_def fake_defs)
  from StopPodSandbox_stops_sandbox_container_iff
         [where c = fake and r = request1 and s = ?live and sandbox = sandbox1 and ctx = "Ctx 100"
            and ?s1.0 = ?l1 and ?w2.0 = "world1 StateReady True"]
       a st
  have 1: "take 2 (events_since ?l1 (snd (StopPodSandbox fake (Ctx 100) request1 ?live))) =
     [EvUnmountSandboxFiles ''sb1'' None, EvTask (ContainerHandle 1) (Inr (Task 1))]"
    by (simp add: Let_def)
  from StopPodSandbox_stops_sandbox_container_iff
         [where c = fake and r = request1 and s = ?quiet and sandbox = sandbox1 and ctx = "Ctx 100"]
       k n o
  have 2: "fst (StopPodSandbox fake (Ctx 100) request1 ?quiet) = Inr StopPodSandboxResponse \<and>
   fst (StopPodSandbox fake (Ctx 100) request1
          (snd (StopPodSandbox fake (Ctx 100) request1 ?quiet))) = Inr StopPodSandboxResponse \<and>
   (\<forall>e \<in> set (events_since ?quiet
                 (snd (StopPodSandbox fake (Ctx 100) request1
                         (snd (StopPodSandbox fake (Ctx 100) request1 ?quiet))))).
      step_of e \<noteq> StepSandboxContainer \<and> \<not> isTaskKill e)"
    by (simp add: Let_def)
  then have "filter (\<lambda>e. step_of e = StepSandboxContainer \<or> isTaskKill e)
     (events_since ?quiet
        (snd (StopPodSandbox fake (Ctx 100) request1
                (snd (StopPodSandbox fake (Ctx 100) request1 ?quiet))))) = []"
    by (simp add: filter_empty_conv)
  with 1 2 show ?thesis by (intro conjI) simp_all
qed

subsection \<open>The network\<close>

text \<open>
  Claim C10. When the sandbox has a network namespace and asking whether it is
  closed fails, \<^verbatim>\<open>StopPodSandbox\<close> returns that error, wrapped, at once: the query is
  the last event of the call, so neither \<^verbatim>\<open>teardownPod\<close> nor the removal of the
  namespace is called.
\<close>

theorem StopPodSandbox_closed_query_error:
  assumes "StopPodSandbox_stop c ctx r s = (Inr sandbox, s1)"
    and "NetNS sandbox = Some netns"
    and "NetNS_Closed c netns (world s1) = (Inl err, w2)"
  shows "StopPodSandbox c ctx r s =
           (Inl (Wrap err ''failed to check network namespace closed''),
            \<lparr>world = w2, trace = trace s1 @ [EvNetNSClosed netns (Inl err)]\<rparr>)"
  using StopPodSandbox_after_stop [OF assms(1) StopPodSandbox_network_closed_error [OF assms(2,3)]]
  by simp

text \<open>
  On the concrete service, with a namespace whose query fails.
\<close>

theorem StopPodSandbox_closed_query_error_witness:
  "StopPodSandbox (fake\<lparr>NetNS_Closed := (\<lambda>n w. (Inl (New ''stat failed''), w))\<rparr>) (Ctx 100)
     request1 (start1 StateNotReady False) =
   (Inl (Wrap (New ''stat failed'') ''failed to check network namespace closed''),
    \<lparr>world = world1 StateNotReady False,
       trace = [EvStopContainer ''c1'' 0 None, EvStopContainer ''c3'' 0 None,
                EvUnmountSandboxFiles ''sb1'' None,
                EvNetNSClosed (NetNSRef 1) (Inl (New ''stat failed''))]\<rparr>)"
proof -
  let ?c = "fake\<lparr>netPlugin := netPlugin fake,
                  NetNS_Closed := (\<lambda>n w. (Inl (New ''stat failed''), w))\<rparr>"
  let ?s1 = "\<lparr>world = world1 StateNotReady False,
       trace = [EvStopContainer ''c1'' 0 None, EvStopContainer ''c3'' 0 None,
                EvUnmountSandboxFiles ''sb1'' None]\<rparr>"
  have c: "?c = fake\<lparr>NetNS_Closed := (\<lambda>n w. (Inl (New ''stat failed''), w))\<rparr>"
    by simp
  have h1: "StopPodSandbox_stop ?c (Ctx 100) request1 (start1 StateNotReady False) =
              (Inr sandbox1, ?s1)"
    by (rule fake_stop_not_ready)
  have h2: "NetNS sandbox1 = Some (NetNSRef 1)"
    by (simp add: sandbox1_def)
  have h3: "NetNS_Closed ?c (NetNSRef 1) (world ?s1) =
              (Inl (New ''stat failed''), world1 StateNotReady False)"
    by simp
  from StopPodSandbox_closed_query_error [OF h1 h2 h3] show ?thesis
    unfolding c by simp
qed

text \<open>
  Claim C7. When the sandbox has a network namespace, \<^verbatim>\<open>StopPodSandbox\<close> calls
  \<^verbatim>\<open>teardownPod\<close>, right after the query and once, with the empty path if the namespace
  reports closed and with the sandbox's \<^verbatim>\<open>NetNSPath\<close> otherwise; the plugin's \<^verbatim>\<open>Remove\<close>,
  when it is called, gets the same path.
\<close>

theorem StopPodSandbox_teardown_path:
  assumes stop: "StopPodSandbox_stop c ctx r s = (Inr sandbox, s1)"
    and netns: "NetNS sandbox = Some netns"
    and closed: "NetNS_Closed c netns (world s1) = (Inr closed, w2)"
  shows "let path = (if closed then [] else NetNSPath sandbox);
             evs = events_since s1 (snd (StopPodSandbox c ctx r s))
         in take 2 evs = [EvNetNSClosed netns (Inr closed), EvTeardownPod (ID sandbox) path] \<and>
            filter isTeardownPod evs = [EvTeardownPod (ID sandbox) path] \<and>
            (\<forall>e \<in> set evs. isNetPluginRemove e \<longrightarrow>
               (\<exists>res. e = EvNetPluginRemove (ID sandbox) path res))"
proof -
  obtain res s2 where net: "StopPodSandbox_network c sandbox s1 = (res, s2)"
    by (cases "StopPodSandbox_network c sandbox s1")
  from StopPodSandbox_network_events [OF netns closed net]
  obtain rest where tr: "trace s2 = trace s1 @ EvNetNSClosed netns (Inr closed) #
                     EvTeardownPod (ID sandbox) (if closed then [] else NetNSPath sandbox) # rest"
    and rest: "rest = [] \<or>
            (\<exists>pr. rest = [EvNetPluginRemove (ID sandbox)
                              (if closed then [] else NetNSPath sandbox) pr]) \<or>
            (\<exists>rr. rest = [EvNetPluginRemove (ID sandbox)
                              (if closed then [] else NetNSPath sandbox) None,
                           EvNetNSRemove netns rr])"
    by blast
  let ?info = "EvInfof ''TearDown network for sandbox %q successfully'' [AStr (ID sandbox)]"
  from StopPodSandbox_after_stop [OF stop net] tr
  have "events_since s1 (snd (StopPodSandbox c ctx r s)) =
          EvNetNSClosed netns (Inr closed) #
          EvTeardownPod (ID sandbox) (if closed then [] else NetNSPath sandbox) #
          rest @ (case res of None \<Rightarrow> [?info] | Some err \<Rightarrow> [])"
    by (cases res) (simp_all add: events_since_def)
  with rest show ?thesis
    by (cases res) (auto simp: Let_def)
qed

text \<open>
  On the concrete service, with an open namespace and with a closed one.
\<close>

theorem StopPodSandbox_teardown_path_witness:
  "filter isTeardownPod
     (events_since
        \<lparr>world = world1 StateNotReady False,
           trace = [EvStopContainer ''c1'' 0 None, EvStopContainer ''c3'' 0 None,
                    EvUnmountSandboxFiles ''sb1'' None]\<rparr>
        (snd (StopPodSandbox fake (Ctx 100) request1 (start1 StateNotReady False)))) =
     [EvTeardownPod ''sb1'' ''/var/run/netns/cni-1''] \<and>
   filter isTeardownPod
     (events_since
        \<lparr>world = world1 StateNotReady False,
           trace = [EvStopContainer ''c1'' 0 None, EvStopContainer ''c3'' 0 None,
                    EvUnmountSandboxFiles ''sb1'' None]\<rparr>
        (snd (StopPodSandbox (fake\<lparr>NetNS_Closed := (\<lambda>n w. (Inr True, w))\<rparr>) (Ctx 100) request1
                (start1 StateNotReady False)))) =
     [EvTeardownPod ''sb1'' '''']"
proof -
  let ?c = "fake\<lparr>netPlugin := netPlugin fake, NetNS_Closed := (\<lambda>n w. (Inr True, w))\<rparr>"
  let ?s1 = "\<lparr>world = world1 StateNotReady False,
       trace = [EvStopContainer ''c1'' 0 None, EvStopContainer ''c3'' 0 None,
                EvUnmountSandboxFiles ''sb1'' None]\<rparr>"
  have c: "?c = fake\<lparr>NetNS_Closed := (\<lambda>n w. (Inr True, w))\<rparr>"
    by simp
  have h1: "StopPodSandbox_stop fake (Ctx 100) request1 (start1 StateNotReady False) =
              (Inr sandbox1, ?s1)"
    using fake_stop_not_ready [where p = "netPlugin fake" and q = "NetNS_Closed fake"]
    by (simp only: fake_same)
  have h1': "StopPodSandbox_stop ?c (Ctx 100) request1 (start1 StateNotReady False) =
              (Inr sandbox1, ?s1)"
    by (rule fake_stop_not_ready)
  have h2: "NetNS sandbox1 = Some (NetNSRef 1)"
    by (simp add: sandbox1_def)
  have h3: "NetNS_Closed fake (NetNSRef 1) (world ?s1) = (Inr False, world1 StateNotReady False)"
    by (simp add: fake_defs)
  have h3': "NetNS_Closed ?c (NetNSRef 1) (world ?s1) = (Inr True, world1 StateNotReady False)"
    by simp
  from StopPodSandbox_teardown_path [OF h1 h2 h3] StopPodSandbox_teardown_path [OF h1' h2 h3']
  show ?thesis
    unfolding c by (simp add: Let_def sandbox1_def)
qed

text \<open>
  Claim C9. Without a network plugin, \<^verbatim>\<open>teardownPod\<close> returns the error
  \<^verbatim>\<open>cni config not initialized\<close> for every sandbox ID, path and config, and changes
  nothing; a call of \<^verbatim>\<open>StopPodSandbox\<close> that reaches the teardown then fails with
  that error, wrapped, and no call of the plugin is in its trace.
\<close>

theorem teardownPod_no_plugin:
  "(netPlugin c = None \<longrightarrow>
      teardownPod c id' path config s =
        (Some (New ''cni config not initialized''),
         s\<lparr>trace := trace s @ [EvTeardownPod id' path]\<rparr>)) \<and>
   (netPlugin c = None \<and> StopPodSandbox_stop c ctx r s = (Inr sandbox, s1) \<and>
    NetNS sandbox = Some netns \<and> NetNS_Closed c netns (world s1) = (Inr closed, w2) \<longrightarrow>
      fst (StopPodSandbox c ctx r s) =
        Inl (Wrapf (New ''cni config not initialized'')
               ''failed to destroy network for sandbox %q'' [AStr (ID sandbox)]) \<and>
      (\<forall>e \<in> set (events_since s (snd (StopPodSandbox c ctx r s))). \<not> isNetPluginRemove e))"
proof (intro conjI impI)
  assume "netPlugin c = None"
  then show "teardownPod c id' path config s =
        (Some (New ''cni config not initialized''),
         s\<lparr>trace := trace s @ [EvTeardownPod id' path]\<rparr>)"
    by (simp add: teardownPod_def)
next
  assume h: "netPlugin c = None \<and> StopPodSandbox_stop c ctx r s = (Inr sandbox, s1) \<and>
    NetNS sandbox = Some netns \<and> NetNS_Closed c netns (world s1) = (Inr closed, w2)"
  then have stop: "StopPodSandbox_stop c ctx r s = (Inr sandbox, s1)"
    and netns: "NetNS sandbox = Some netns"
    and closed: "NetNS_Closed c netns (world s1) = (Inr closed, w2)"
    and plugin: "netPlugin c = None"
    by simp_all
  obtain res s2 where net: "StopPodSandbox_network c sandbox s1 = (res, s2)"
    by (cases "StopPodSandbox_network c sandbox s1")
  from StopPodSandbox_network_events [OF netns closed net] plugin
  have res: "res = Some (Wrapf (New ''cni config not initialized'')
                           ''failed to destroy network for sandbox %q'' [AStr (ID sandbox)])"
    and tr: "trace s2 = trace s1 @ [EvNetNSClosed netns (Inr closed),
               EvTeardownPod (ID sandbox) (if closed then [] else NetNSPath sandbox)]"
    by auto
  from StopPodSandbox_after_stop [OF stop net] res
  have run: "StopPodSandbox c ctx r s = (Inl (Wrapf (New ''cni config not initialized'')
               ''failed to destroy network for sandbox %q'' [AStr (ID sandbox)]), s2)"
    by simp
  then show "fst (StopPodSandbox c ctx r s) =
        Inl (Wrapf (New ''cni config not initialized'')
               ''failed to destroy network for sandbox %q'' [AStr (ID sandbox)])"
    by simp
  from StopPodSandbox_stop_trace [OF stop] obtain evs
    where evs: "trace s1 = trace s @ evs"
      and steps: "\<forall>e \<in> set evs. step_of e = StepContainers \<or> step_of e = StepUnmount \<or>
                           step_of e = StepSandboxContainer"
    by blast
  have "\<not> isNetPluginRemove e" if "e \<in> set evs" for e
    using steps that by (cases e) auto
  with run tr evs
  show "\<forall>e \<in> set (events_since s (snd (StopPodSandbox c ctx r s))). \<not> isNetPluginRemove e"
    by (auto simp: events_since_def)
qed

text \<open>
  On the concrete service without its plugin.
\<close>

theorem teardownPod_no_plugin_witness:
  "teardownPod (fake\<lparr>netPlugin := None\<rparr>) ''sb1'' ''/var/run/netns/cni-1'' ()
     (start1 StateNotReady False) =
     (Some (New ''cni config not initialized''),
      \<lparr>world = world1 StateNotReady False,
         trace = [EvTeardownPod ''sb1'' ''/var/run/netns/cni-1'']\<rparr>) \<and>
   fst (StopPodSandbox (fake\<lparr>netPlugin := None\<rparr>) (Ctx 100) request1
          (start1 StateNotReady False)) =
     Inl (Wrapf (New ''cni config not initialized'')
            ''failed to destroy network for sandbox %q'' [AStr ''sb1''])"
proof -
  let ?c = "fake\<lparr>netPlugin := None, NetNS_Closed := NetNS_Closed fake\<rparr>"
  let ?s1 = "\<lparr>world = world1 StateNotReady False,
       trace = [EvStopContainer ''c1'' 0 None, EvStopContainer ''c3'' 0 None,
                EvUnmountSandboxFiles ''sb1'' None]\<rparr>"
  have c: "?c = fake\<lparr>netPlugin := None\<rparr>"
    by simp
  have h0: "netPlugin ?c = None"
    by simp
  have h1: "StopPodSandbox_stop ?c (Ctx 100) request1 (start1 StateNotReady False) =
              (Inr sandbox1, ?s1)"
    by (rule fake_stop_not_ready)
  have h2: "NetNS sandbox1 = Some (NetNSRef 1)"
    by (simp add: sandbox1_def)
  have h3: "NetNS_Closed ?c (NetNSRef 1) (world ?s1) = (Inr False, world1 StateNotReady False)"
    by (simp add: fake_defs)
  from teardownPod_no_plugin [of ?c "''sb1''" "''/var/run/netns/cni-1''" "()"
         "start1 StateNotReady False" "Ctx 100" request1 sandbox1 ?s1 "NetNSRef 1" False
         "world1 StateNotReady False"]
       h0 h1 h2 h3
  show ?thesis
    unfolding c by (simp add: sandbox1_def start1_def)
qed

text \<open>
  Claim C1, as the code has it. A call of \<^verbatim>\<open>StopPodSandbox\<close> calls \<^verbatim>\<open>teardownPod\<close> at
  most once. Every call that gets as far as the network step for a sandbox with a
  network namespace whose query succeeds calls it exactly once, right after the query,
  with the empty path if the namespace reports closed and with \<^verbatim>\<open>NetNSPath\<close> otherwise,
  whatever earlier calls have done: the reference to the namespace is never set to nil.
  When the plugin's \<^verbatim>\<open>Remove\<close> returns no error, \<^verbatim>\<open>Remove\<close> of the namespace object is
  the next event of the call; when it returns an error, the plugin's call is the last
  event and the namespace is not removed.
\<close>

theorem StopPodSandbox_teardown_each_call:
  "let evs = events_since s (snd (StopPodSandbox c ctx r s));
       net = events_since s1 (snd (StopPodSandbox c ctx r s));
       path = (if closed then [] else NetNSPath sandbox);
       reached = (StopPodSandbox_stop c ctx r s = (Inr sandbox, s1) \<and> NetNS sandbox = Some netns \<and>
                  NetNS_Closed c netns (world s1) = (Inr closed, w2));
       torn = (netPlugin c = Some Remove \<and>
               Remove (ID sandbox) path
                 [WithLabels (getPodCNILabels c (ID sandbox) (Config sandbox)),
                  WithCapabilityPortMap (toCNIPortMappings c (GetPortMappings c (Config sandbox)))]
                 w2 = (pr, w3));
       rr = fst (NetNS_Remove c netns w3)
   in length (filter isTeardownPod evs) \<le> 1 \<and>
      (reached \<longrightarrow>
         filter isTeardownPod evs = [EvTeardownPod (ID sandbox) path] \<and>
         take 2 net = [EvNetNSClosed netns (Inr closed), EvTeardownPod (ID sandbox) path]) \<and>
      (reached \<and> torn \<longrightarrow>
         net = [EvNetNSClosed netns (Inr closed), EvTeardownPod (ID sandbox) path,
                EvNetPluginRemove (ID sandbox) path pr] @
               (case pr of
                  Some err \<Rightarrow> []
                | None \<Rightarrow>
                    EvNetNSRemove netns rr #
                    (case rr of
                       Some err \<Rightarrow> []
                     | None \<Rightarrow> [EvInfof ''TearDown network for sandbox %q successfully''
                                  [AStr (ID sandbox)]])))"
proof -
  let ?run = "StopPodSandbox c ctx r s"
  let ?evs = "events_since s (snd ?run)"
  let ?net = "events_since s1 (snd ?run)"
  let ?path = "if closed then [] else NetNSPath sandbox"
  let ?opts = "[WithLabels (getPodCNILabels c (ID sandbox) (Config sandbox)),
                WithCapabilityPortMap (toCNIPortMappings c (GetPortMappings c (Config sandbox)))]"
  let ?info = "EvInfof ''TearDown network for sandbox %q successfully'' [AStr (ID sandbox)]"
  from StopPodSandbox_trace [of c ctx r s] have once: "length (filter isTeardownPod ?evs) \<le> 1"
    by auto
  have reached: "filter isTeardownPod ?evs = [EvTeardownPod (ID sandbox) ?path] \<and>
         take 2 ?net = [EvNetNSClosed netns (Inr closed), EvTeardownPod (ID sandbox) ?path]"
    if stop: "StopPodSandbox_stop c ctx r s = (Inr sandbox, s1)"
      and netns: "NetNS sandbox = Some netns"
      and closed: "NetNS_Closed c netns (world s1) = (Inr closed, w2)"
  proof -
    from StopPodSandbox_stop_trace [OF stop] obtain evs1
      where evs1: "trace s1 = trace s @ evs1"
        and steps: "\<forall>e \<in> set evs1. step_of e = StepContainers \<or> step_of e = StepUnmount \<or>
                           step_of e = StepSandboxContainer"
      by blast
    have "\<not> isTeardownPod e" if "e \<in> set evs1" for e
      using steps that by (cases e) auto
    then have none: "filter isTeardownPod evs1 = []"
      by (simp add: filter_empty_conv)
    obtain res s2 where net: "StopPodSandbox_network c sandbox s1 = (res, s2)"
      by (cases "StopPodSandbox_network c sandbox s1")
    from StopPodSandbox_network_events [OF netns closed net]
    obtain rest where tr: "trace s2 = trace s1 @ EvNetNSClosed netns (Inr closed) #
                     EvTeardownPod (ID sandbox) ?path # rest"
      and rest: "rest = [] \<or>
            (\<exists>err. rest = [EvNetPluginRemove (ID sandbox) ?path (Some err)]) \<or>
            (\<exists>rr. rest = [EvNetPluginRemove (ID sandbox) ?path None, EvNetNSRemove netns rr])"
      by blast
    from StopPodSandbox_after_stop [OF stop net] tr
    have n: "?net = EvNetNSClosed netns (Inr closed) # EvTeardownPod (ID sandbox) ?path #
                 rest @ (case res of None \<Rightarrow> [?info] | Some err \<Rightarrow> [])"
      by (cases res) (simp_all add: events_since_def)
    from StopPodSandbox_after_stop [OF stop net] tr evs1
    have e: "?evs = evs1 @ EvNetNSClosed netns (Inr closed) # EvTeardownPod (ID sandbox) ?path #
                 rest @ (case res of None \<Rightarrow> [?info] | Some err \<Rightarrow> [])"
      by (cases res) (simp_all add: events_since_def)
    from e none rest have "filter isTeardownPod ?evs = [EvTeardownPod (ID sandbox) ?path]"
      by (cases res) auto
    with n show ?thesis by simp
  qed
  have torn: "?net = [EvNetNSClosed netns (Inr closed), EvTeardownPod (ID sandbox) ?path,
                EvNetPluginRemove (ID sandbox) ?path pr] @
               (case pr of
                  Some err \<Rightarrow> []
                | None \<Rightarrow>
                    EvNetNSRemove netns (fst (NetNS_Remove c netns w3)) #
                    (case fst (NetNS_Remove c netns w3) of
                       Some err \<Rightarrow> []
                     | None \<Rightarrow> [?info]))"
    if stop: "StopPodSandbox_stop c ctx r s = (Inr sandbox, s1)"
      and netns: "NetNS sandbox = Some netns"
      and closed: "NetNS_Closed c netns (world s1) = (Inr closed, w2)"
      and plugin: "netPlugin c = Some Remove"
      and remove: "Remove (ID sandbox) ?path ?opts w2 = (pr, w3)"
  proof -
    obtain rr w4 where nsremove: "NetNS_Remove c netns w3 = (rr, w4)"
      by (cases "NetNS_Remove c netns w3")
    note net = StopPodSandbox_network_plugin [OF netns closed plugin remove nsremove]
    show ?thesis
    proof (cases pr)
      case (Some err)
      with net stop show ?thesis
        by (simp add: StopPodSandbox_def events_since_def)
    next
      case None
      with net stop nsremove show ?thesis
        by (cases rr) (simp_all add: StopPodSandbox_def events_since_def)
    qed
  qed
  from once reached torn show ?thesis
    unfolding Let_def by blast
qed

text \<open>
  On the concrete service: the network step of the second of two calls for a sandbox
  that is not ready, which tears the network down again, with the empty path, and then
  removes the namespace again.
\<close>

theorem StopPodSandbox_teardown_each_call_witness:
  "events_since
     \<lparr>world = (world1 StateNotReady False)\<lparr>fw_closed := True\<rparr>,
        trace = trace (snd (StopPodSandbox fake (Ctx 100) request1 (start1 StateNotReady False))) @
                [EvStopContainer ''c1'' 0 None, EvStopContainer ''c3'' 0 None,
                 EvUnmountSandboxFiles ''sb1'' None]\<rparr>
     (snd (StopPodSandbox fake (Ctx 100) request1
             (snd (StopPodSandbox fake (Ctx 100) request1 (start1 StateNotReady False))))) =
   [EvNetNSClosed (NetNSRef 1) (Inr True), EvTeardownPod ''sb1'' '''',
    EvNetPluginRemove ''sb1'' '''' None, EvNetNSRemove (NetNSRef 1) None,
    EvInfof ''TearDown network for sandbox %q successfully'' [AStr ''sb1'']] \<and>
   filter isTeardownPod
     (events_since
        (snd (StopPodSandbox fake (Ctx 100) request1 (start1 StateNotReady False)))
        (snd (StopPodSandbox fake (Ctx 100) request1
                (snd (StopPodSandbox fake (Ctx 100) request1 (start1 StateNotReady False)))))) =
   [EvTeardownPod ''sb1'' '''']"
proof -
  let ?s = "snd (StopPodSandbox fake (Ctx 100) request1 (start1 StateNotReady False))"
  let ?w = "(world1 StateNotReady False)\<lparr>fw_closed := True\<rparr>"
  have w: "world ?s = ?w"
    by (simp add: run_defs fake_defs)
  let ?s1 = "\<lparr>world = ?w,
       trace = trace ?s @ [EvStopContainer ''c1'' 0 None, EvStopContainer ''c3'' 0 None,
                EvUnmountSandboxFiles ''sb1'' None]\<rparr>"
  let ?Remove = "\<lambda>(i::string) (p::string) (opts::unit NamespaceOpts list) (w::FakeWorld).
                   (None::error option, w)"
  have h1: "StopPodSandbox_stop fake (Ctx 100) request1 ?s = (Inr sandbox1, ?s1)"
    using w by (simp add: StopPodSandbox_stop_def call_def fake_defs Let_def)
  have h2: "NetNS sandbox1 = Some (NetNSRef 1)"
    by (simp add: sandbox1_def)
  have h3: "NetNS_Closed fake (NetNSRef 1) (world ?s1) = (Inr True, ?w)"
    by (simp add: fake_defs)
  have h4: "netPlugin fake = Some ?Remove"
    by (simp add: fake_defs)
  have h5: "?Remove (ID sandbox1) (if True then [] else NetNSPath sandbox1)
              [WithLabels (getPodCNILabels fake (ID sandbox1) (Config sandbox1)),
               WithCapabilityPortMap (toCNIPortMappings fake (GetPortMappings fake (Config sandbox1)))]
              ?w = (None, ?w)"
    by simp
  have h6: "fst (NetNS_Remove fake (NetNSRef 1) ?w) = None"
    by (simp add: fake_defs)
  from StopPodSandbox_teardown_each_call [of ?s fake "Ctx 100" request1 ?s1 True sandbox1
         "NetNSRef 1" ?w ?Remove None ?w] h1 h2 h3 h4 h5 h6
  show ?thesis
    by (simp add: Let_def sandbox1_def)
qed

text \<open>
  Claim C1, as stated, fails: on the concrete service the first call succeeds, tears
  the network down and removes the namespace, and the second call tears the network
  down once more, now with the empty path.
\<close>

theorem StopPodSandbox_teardown_twice:
  "fst (StopPodSandbox fake (Ctx 100) request1 (start1 StateNotReady False)) =
     Inr StopPodSandboxResponse \<and>
   filter isTeardownPod
     (trace (snd (StopPodSandbox fake (Ctx 100) request1 (start1 StateNotReady False)))) =
     [EvTeardownPod ''sb1'' ''/var/run/netns/cni-1''] \<and>
   filter isNetNSRemove
     (trace (snd (StopPodSandbox fake (Ctx 100) request1 (start1 StateNotReady False)))) =
     [EvNetNSRemove (NetNSRef 1) None] \<and>
   filter isTeardownPod
     (events_since
        (snd (StopPodSandbox fake (Ctx 100) request1 (start1 StateNotReady False)))
        (snd (StopPodSandbox fake (Ctx 100) request1
                (snd (StopPodSandbox fake (Ctx 100) request1 (start1 StateNotReady False)))))) =
     [EvTeardownPod ''sb1'' '''']"
  by (simp add: run_defs fake_defs)

end
